theory Spec2Isabelle
  imports Complex_Main
begin


section \<open>The database of the store-rating backend\<close>

text \<open>
  The tables of \<^verbatim>\<open>initializeDatabase\<close> (config/database), one record per row and one
  list per table, in insertion order. The columns \<^verbatim>\<open>password\<close> and \<^verbatim>\<open>updated_at\<close> play no
  part in what follows and are left out; \<^verbatim>\<open>created_at\<close> is a number (a clock reading), and
  only where a list can be sorted by it.

  \<^verbatim>\<open>average_rating\<close> is \<^verbatim>\<open>DECIMAL(2,1)\<close>: a fixed-point number with one digit after the
  point. It is stored here as its number of tenths, so \<open>45\<close> stands for 4.5 and the
  column holds the values \<open>-99 .. 99\<close>. A column that the schema does not declare
  \<^verbatim>\<open>NOT NULL\<close> has an option type, \<open>None\<close> for \<^verbatim>\<open>NULL\<close>.
\<close>

record user =
  u_id :: int
  u_name :: string
  u_email :: string
  u_address :: string
  u_role :: string
  u_created_at :: nat

record store =
  s_id :: int
  s_name :: string
  s_email :: string
  s_address :: string
  owner_id :: "int option"
  average_rating :: "int option"
  total_ratings :: "int option"
  s_created_at :: nat

record rating =
  r_id :: int
  user_id :: int
  store_id :: int
  rating :: int
  comment :: "string option"

text \<open>
  The state of the database: the three tables and the two \<^verbatim>\<open>SERIAL\<close> sequences that the
  handlers below draw ids from.
\<close>

record db =
  users :: "user list"
  stores :: "store list"
  ratings :: "rating list"
  stores_id_seq :: int
  ratings_id_seq :: int

text \<open>What a statement can fail with; a handler reports each of them as status 500.\<close>

datatype dberror =
    CheckViolation
  | UniqueViolation
  | ForeignKeyViolation
  | NumericFieldOverflow
  | StringDataRightTruncation
  | InvalidTextRepresentation
  | NumericValueOutOfRange
  | InvalidRowCount
  | UndefinedColumn
  | SyntaxError

text \<open>
  The \<^verbatim>\<open>CHECK\<close> constraint on \<^verbatim>\<open>users.role\<close>:
  \<^verbatim>\<open>role IN ('system_admin', 'normal_user', 'store_owner')\<close>.
\<close>

definition schema_roles :: "string list" where
  "schema_roles = [''system_admin'', ''normal_user'', ''store_owner'']"

subsection \<open>The trigger \<^verbatim>\<open>update_store_rating\<close>\<close>

text \<open>\<^verbatim>\<open>COALESCE(a, b)\<close> on two nullable values.\<close>

definition coalesce :: "'a option \<Rightarrow> 'a option \<Rightarrow> 'a option" where
  "coalesce a b = (case a of Some x \<Rightarrow> Some x | None \<Rightarrow> b)"

text \<open>
  \<^verbatim>\<open>AVG\<close> over the values of a column: \<^verbatim>\<open>NULL\<close> over no rows, and otherwise the quotient of
  the sum by the count, kept here as the fraction \<open>(sum, count)\<close>. (The engine carries
  the quotient with at least sixteen significant digits; the fraction is taken as
  exact.)
\<close>

definition sql_avg :: "int list \<Rightarrow> (int \<times> int) option" where
  "sql_avg vs = (if vs = [] then None else Some (sum_list vs, int (length vs)))"

text \<open>
  The assignment of a fraction \<open>(s, c)\<close> with \<open>0 < c\<close> to a \<^verbatim>\<open>DECIMAL(2,1)\<close> column: it is
  rounded to one digit after the point, a half away from zero, and refused when the
  rounded value does not fit two digits; \<^verbatim>\<open>NULL\<close> is stored as it is. The result is in
  tenths.
\<close>

definition to_decimal_2_1 :: "(int \<times> int) option \<Rightarrow> dberror + int option" where
  "to_decimal_2_1 v =
     (case v of
        None \<Rightarrow> Inr None
      | Some (s, c) \<Rightarrow>
          (let t = sgn s * ((20 * \<bar>s\<bar> + c) div (2 * c))
           in if 100 \<le> \<bar>t\<bar> then Inl NumericFieldOverflow else Inr (Some t)))"

text \<open>
  The trigger function, with \<^verbatim>\<open>NEW\<close> and \<^verbatim>\<open>OLD\<close> as the row trigger passes them (\<^verbatim>\<open>NEW\<close>
  is null on a delete, \<^verbatim>\<open>OLD\<close> on an insert):
  \<^verbatim>\<open>
  UPDATE stores
  SET average_rating = (SELECT COALESCE(AVG(rating), 0) FROM ratings
                        WHERE store_id = COALESCE(NEW.store_id, OLD.store_id)),
      total_ratings  = (SELECT COUNT(*) FROM ratings
                        WHERE store_id = COALESCE(NEW.store_id, OLD.store_id))
  WHERE id = COALESCE(NEW.store_id, OLD.store_id);
  \<close>
  The constant 0 of the \<^verbatim>\<open>COALESCE\<close> is the fraction \<open>(0, 1)\<close>. When no store row has that
  id the \<^verbatim>\<open>SET\<close> expressions are not evaluated.
\<close>

definition update_store_rating :: "rating option \<Rightarrow> rating option \<Rightarrow> db \<Rightarrow> dberror + db" where
  "update_store_rating NEW OLD d =
     (case coalesce (map_option store_id NEW) (map_option store_id OLD) of
        None \<Rightarrow> Inr d
      | Some sid \<Rightarrow>
          (let rs = filter (\<lambda>r. store_id r = sid) (ratings d)
           in if \<not> list_ex (\<lambda>s. s_id s = sid) (stores d) then Inr d
              else case to_decimal_2_1 (coalesce (sql_avg (map rating rs)) (Some (0, 1))) of
                     Inl e \<Rightarrow> Inl e
                   | Inr avg \<Rightarrow>
                       Inr (d\<lparr>stores :=
                              map (\<lambda>s. if s_id s = sid
                                        then s\<lparr>average_rating := avg,
                                               total_ratings := Some (int (length rs))\<rparr>
                                        else s)
                                  (stores d)\<rparr>)))"

text \<open>
  \<^verbatim>\<open>rating_update_trigger\<close>: \<^verbatim>\<open>AFTER INSERT OR UPDATE OR DELETE ON ratings FOR EACH ROW\<close>.
  The function runs once for every row the statement touched, after the statement has
  changed the table; an error in any run aborts the statement.
\<close>

fun rating_update_trigger :: "(rating option \<times> rating option) list \<Rightarrow> db \<Rightarrow> dberror + db" where
  "rating_update_trigger [] d = Inr d"
| "rating_update_trigger ((NEW, OLD) # evs) d =
     (case update_store_rating NEW OLD d of
        Inl e \<Rightarrow> Inl e
      | Inr d' \<Rightarrow> rating_update_trigger evs d')"

subsection \<open>The statements on \<^verbatim>\<open>ratings\<close>\<close>

text \<open>
  \<^verbatim>\<open>INSERT INTO ratings (user_id, store_id, rating, comment) VALUES ($1, $2, $3, $4)
  RETURNING ...\<close>. The id is drawn from the sequence first, and a sequence keeps what it
  gave out when the statement fails. Then the constraints of the table: the primary key,
  \<^verbatim>\<open>CHECK (rating >= 1 AND rating <= 5)\<close>, \<^verbatim>\<open>UNIQUE(user_id, store_id)\<close> and the two foreign
  keys. Then the row trigger. A failure leaves the tables as they were.
\<close>

definition insert_rating ::
  "db \<Rightarrow> int \<Rightarrow> int \<Rightarrow> int \<Rightarrow> string option \<Rightarrow> db \<times> (dberror + rating)" where
  "insert_rating d uid sid val c =
     (let row = \<lparr>r_id = ratings_id_seq d, user_id = uid, store_id = sid, rating = val,
                 comment = c\<rparr>;
          d0 = d\<lparr>ratings_id_seq := ratings_id_seq d + 1\<rparr>
      in if \<not> (1 \<le> val \<and> val \<le> 5) then (d0, Inl CheckViolation)
         else if list_ex (\<lambda>r. r_id r = r_id row) (ratings d) then (d0, Inl UniqueViolation)
         else if list_ex (\<lambda>r. user_id r = uid \<and> store_id r = sid) (ratings d)
           then (d0, Inl UniqueViolation)
         else if \<not> list_ex (\<lambda>u. u_id u = uid) (users d) \<or> \<not> list_ex (\<lambda>s. s_id s = sid) (stores d)
           then (d0, Inl ForeignKeyViolation)
         else case rating_update_trigger [(Some row, None)] (d0\<lparr>ratings := ratings d @ [row]\<rparr>) of
                Inl e \<Rightarrow> (d0, Inl e)
              | Inr d' \<Rightarrow> (d', Inr row))"

text \<open>
  \<^verbatim>\<open>UPDATE ratings SET rating = $1, comment = $2, updated_at = CURRENT_TIMESTAMP
  WHERE user_id = $3 AND store_id = $4 RETURNING ...\<close>; the result is the new state and the
  rows returned.
\<close>

definition update_rating ::
  "db \<Rightarrow> int \<Rightarrow> string option \<Rightarrow> int \<Rightarrow> int \<Rightarrow> dberror + db \<times> rating list" where
  "update_rating d val c uid sid =
     (let hit = (\<lambda>r. user_id r = uid \<and> store_id r = sid);
          set_cols = (\<lambda>r. r\<lparr>rating := val, comment := c\<rparr>);
          olds = filter hit (ratings d)
      in if olds \<noteq> [] \<and> \<not> (1 \<le> val \<and> val \<le> 5) then Inl CheckViolation
         else case rating_update_trigger (map (\<lambda>r. (Some (set_cols r), Some r)) olds)
                     (d\<lparr>ratings := map (\<lambda>r. if hit r then set_cols r else r) (ratings d)\<rparr>) of
                Inl e \<Rightarrow> Inl e
              | Inr d' \<Rightarrow> Inr (d', map set_cols olds))"

text \<open>\<^verbatim>\<open>DELETE FROM ratings WHERE user_id = $1 AND store_id = $2\<close>.\<close>

definition delete_rating :: "db \<Rightarrow> int \<Rightarrow> int \<Rightarrow> dberror + db" where
  "delete_rating d uid sid =
     (let hit = (\<lambda>r. user_id r = uid \<and> store_id r = sid);
          olds = filter hit (ratings d)
      in rating_update_trigger (map (\<lambda>r. (None, Some r)) olds)
           (d\<lparr>ratings := filter (\<lambda>r. \<not> hit r) (ratings d)\<rparr>))"

section \<open>The rating handlers (routes/ratings.js)\<close>

text \<open>
  A handler answers with a status and a message, or with its payload. The \<^verbatim>\<open>catch\<close> of
  every handler turns whatever the database raised into status 500. The middleware in
  front of a handler (token check, role check, body validation) has run before: the
  handler is given the id of the authenticated principal, and ids and rating values are
  integers.
\<close>

datatype error = HttpError nat string

text \<open>The two lookups the handlers share.\<close>

definition store_exists :: "db \<Rightarrow> int \<Rightarrow> bool" where
  "store_exists d sid = list_ex (\<lambda>s. s_id s = sid) (stores d)"

definition rating_exists :: "db \<Rightarrow> int \<Rightarrow> int \<Rightarrow> bool" where
  "rating_exists d uid sid = list_ex (\<lambda>r. user_id r = uid \<and> store_id r = sid) (ratings d)"

text \<open>\<^verbatim>\<open>POST /api/ratings\<close>; the payload (status 201) is the inserted row.\<close>

definition post_rating ::
  "db \<Rightarrow> int \<Rightarrow> int \<Rightarrow> int \<Rightarrow> string option \<Rightarrow> db \<times> (error + rating)" where
  "post_rating d userId storeId val c =
     (if \<not> store_exists d storeId then (d, Inl (HttpError 404 ''Store not found''))
      else if rating_exists d userId storeId
        then (d, Inl (HttpError 400
                ''You have already rated this store. Use PUT to update your rating.''))
      else case insert_rating d userId storeId val c of
             (d', Inl e) \<Rightarrow> (d', Inl (HttpError 500 ''Server error submitting rating''))
           | (d', Inr row) \<Rightarrow> (d', Inr row))"

text \<open>
  \<^verbatim>\<open>PUT /api/ratings/:storeId\<close>; the payload is \<^verbatim>\<open>result.rows[0]\<close>, undefined when the
  statement returned no row.
\<close>

definition put_rating ::
  "db \<Rightarrow> int \<Rightarrow> int \<Rightarrow> int \<Rightarrow> string option \<Rightarrow> db \<times> (error + rating option)" where
  "put_rating d userId storeId val c =
     (if \<not> store_exists d storeId then (d, Inl (HttpError 404 ''Store not found''))
      else if \<not> rating_exists d userId storeId
        then (d, Inl (HttpError 404
                ''You have not rated this store yet. Use POST to submit a new rating.''))
      else case update_rating d val c userId storeId of
             Inl e \<Rightarrow> (d, Inl (HttpError 500 ''Server error updating rating''))
           | Inr (d', rows) \<Rightarrow> (d', Inr (case rows of [] \<Rightarrow> None | r # _ \<Rightarrow> Some r)))"

text \<open>\<^verbatim>\<open>DELETE /api/ratings/:storeId\<close>; the payload is the message alone.\<close>

definition delete_rating_handler :: "db \<Rightarrow> int \<Rightarrow> int \<Rightarrow> db \<times> (error + unit)" where
  "delete_rating_handler d userId storeId =
     (if \<not> rating_exists d userId storeId then (d, Inl (HttpError 404 ''Rating not found''))
      else case delete_rating d userId storeId of
             Inl e \<Rightarrow> (d, Inl (HttpError 500 ''Server error deleting rating''))
           | Inr d' \<Rightarrow> (d', Inr ()))"

section \<open>Values of the request and of the query engine\<close>

subsection \<open>Numbers\<close>

text \<open>
  \<^verbatim>\<open>page\<close> and \<^verbatim>\<open>limit\<close> arrive as strings and are used as numbers. A value of \<open>jsnum\<close> is
  the number JavaScript reads from such a string: \<open>Num n\<close> for the decimal text of the
  integer \<open>n\<close>, \<open>NaN\<close> for text that is no number (\<^verbatim>\<open>'abc'\<close>), \<open>PInf\<close> and \<open>NInf\<close> for
  \<^verbatim>\<open>'Infinity'\<close> and \<^verbatim>\<open>'-Infinity'\<close>; and equally the result of arithmetic on them. Integers
  are unbounded here; JavaScript's doubles agree with them below \<open>2^53\<close>. Fractions are
  not represented.
\<close>

datatype jsnum = Num int | NaN | PInf | NInf

text \<open>The sign of a number that is not \<open>NaN\<close>.\<close>

fun js_sign :: "jsnum \<Rightarrow> int" where
  "js_sign (Num a) = sgn a"
| "js_sign PInf = 1"
| "js_sign NInf = - 1"
| "js_sign NaN = 0"

text \<open>\<^verbatim>\<open>a - b\<close>.\<close>

fun js_sub :: "jsnum \<Rightarrow> jsnum \<Rightarrow> jsnum" where
  "js_sub (Num a) (Num b) = Num (a - b)"
| "js_sub NaN _ = NaN"
| "js_sub _ NaN = NaN"
| "js_sub PInf PInf = NaN"
| "js_sub NInf NInf = NaN"
| "js_sub PInf _ = PInf"
| "js_sub NInf _ = NInf"
| "js_sub (Num a) PInf = NInf"
| "js_sub (Num a) NInf = PInf"

text \<open>\<^verbatim>\<open>a * b\<close>; zero times an infinity is \<open>NaN\<close>.\<close>

fun js_mul :: "jsnum \<Rightarrow> jsnum \<Rightarrow> jsnum" where
  "js_mul (Num a) (Num b) = Num (a * b)"
| "js_mul NaN _ = NaN"
| "js_mul _ NaN = NaN"
| "js_mul a b =
     (if js_sign a * js_sign b = 0 then NaN
      else if 0 < js_sign a * js_sign b then PInf else NInf)"

text \<open>\<^verbatim>\<open>a < b\<close>; a comparison with \<open>NaN\<close> is false.\<close>

fun js_lt :: "jsnum \<Rightarrow> jsnum \<Rightarrow> bool" where
  "js_lt (Num a) (Num b) = (a < b)"
| "js_lt NaN _ = False"
| "js_lt _ NaN = False"
| "js_lt PInf _ = False"
| "js_lt _ NInf = False"
| "js_lt _ _ = True"

text \<open>
  \<^verbatim>\<open>Math.ceil(total / limit)\<close> for an integer \<open>total\<close>: division by zero gives an infinity,
  or \<open>NaN\<close> for \<open>0 / 0\<close>; division by an infinity gives zero.
\<close>

fun js_ceil_div :: "int \<Rightarrow> jsnum \<Rightarrow> jsnum" where
  "js_ceil_div t (Num l) =
     (if l = 0 then (if t = 0 then NaN else if 0 < t then PInf else NInf)
      else Num (- ((- t) div l)))"
| "js_ceil_div t NaN = NaN"
| "js_ceil_div t PInf = Num 0"
| "js_ceil_div t NInf = Num 0"

text \<open>\<^verbatim>\<open>parseInt(x)\<close>, which does not read \<^verbatim>\<open>'Infinity'\<close>.\<close>

fun js_parseInt :: "jsnum \<Rightarrow> jsnum" where
  "js_parseInt (Num a) = Num a"
| "js_parseInt _ = NaN"

text \<open>
  The default of a destructured parameter: \<^verbatim>\<open>const { x = v } = req.query\<close> gives \<open>v\<close> when
  \<^verbatim>\<open>x\<close> is undefined, that is absent from the query string, and the given value otherwise.
\<close>

definition or_default :: "'a option \<Rightarrow> 'a \<Rightarrow> 'a" where
  "or_default x v = (case x of None \<Rightarrow> v | Some y \<Rightarrow> y)"

subsection \<open>Strings\<close>

text \<open>
  \<^verbatim>\<open>toLowerCase\<close>, \<^verbatim>\<open>toUpperCase\<close> and SQL's \<^verbatim>\<open>LOWER\<close>, on the letters of ASCII; every other
  character is left as it is.
\<close>

definition lower_char :: "char \<Rightarrow> char" where
  "lower_char c =
     (if 65 \<le> (of_char c :: nat) \<and> (of_char c :: nat) \<le> 90 then char_of (of_char c + 32 :: nat) else c)"

definition upper_char :: "char \<Rightarrow> char" where
  "upper_char c =
     (if 97 \<le> (of_char c :: nat) \<and> (of_char c :: nat) \<le> 122 then char_of (of_char c - 32 :: nat) else c)"

definition toLowerCase :: "string \<Rightarrow> string" where
  "toLowerCase s = map lower_char s"

definition toUpperCase :: "string \<Rightarrow> string" where
  "toUpperCase s = map upper_char s"

text \<open>
  The order of two strings under \<^verbatim>\<open>ORDER BY\<close>: by character codes, the first difference
  deciding (the collation \<^verbatim>\<open>C\<close>).
\<close>

fun str_le :: "string \<Rightarrow> string \<Rightarrow> bool" where
  "str_le [] _ = True"
| "str_le (a # as) [] = False"
| "str_le (a # as) (b # bs) =
     ((of_char a :: nat) < of_char b \<or> (a = b \<and> str_le as bs))"

text \<open>
  \<^verbatim>\<open>s LIKE p\<close>: \<^verbatim>\<open>%\<close> matches any run of characters, \<^verbatim>\<open>_\<close> any one character, and a
  backslash makes the character after it stand for itself.
\<close>

fun sql_like :: "string \<Rightarrow> string \<Rightarrow> bool" where
  "sql_like s [] = (s = [])"
| "sql_like s (p # ps) =
     (if p = CHR ''%'' then
        (sql_like s ps \<or> (case s of [] \<Rightarrow> False | _ # cs \<Rightarrow> sql_like cs (p # ps)))
      else if p = CHR ''_'' then
        (case s of [] \<Rightarrow> False | _ # cs \<Rightarrow> sql_like cs ps)
      else if p = CHR 0x5C then
        (case ps of
           [] \<Rightarrow> False
         | q # qs \<Rightarrow> (case s of [] \<Rightarrow> False | c # cs \<Rightarrow> c = q \<and> sql_like cs qs))
      else (case s of [] \<Rightarrow> False | c # cs \<Rightarrow> c = p \<and> sql_like cs ps))"

subsection \<open>Clauses of a query\<close>

text \<open>
  A parameter bound to \<^verbatim>\<open>LIMIT\<close> or \<^verbatim>\<open>OFFSET\<close> is sent as text and read as a \<^verbatim>\<open>bigint\<close>: text
  that is no integer, or one outside 64 bits, is refused.
\<close>

definition pg_bigint :: "jsnum \<Rightarrow> dberror + int" where
  "pg_bigint x =
     (case x of
        Num n \<Rightarrow> if - (2 ^ 63) \<le> n \<and> n < 2 ^ 63 then Inr n else Inl NumericValueOutOfRange
      | _ \<Rightarrow> Inl InvalidTextRepresentation)"

text \<open>
  \<^verbatim>\<open>LIMIT $n OFFSET $m\<close> on the rows of a query; the engine refuses a negative value of
  either.
\<close>

definition sql_limit_offset :: "jsnum \<Rightarrow> jsnum \<Rightarrow> 'a list \<Rightarrow> dberror + 'a list" where
  "sql_limit_offset limit_param offset_param rows =
     (case pg_bigint limit_param of
        Inl e \<Rightarrow> Inl e
      | Inr l \<Rightarrow>
          (case pg_bigint offset_param of
             Inl e \<Rightarrow> Inl e
           | Inr k \<Rightarrow>
               if l < 0 \<or> k < 0 then Inl InvalidRowCount
               else Inr (take (nat l) (drop (nat k) rows))))"

text \<open>
  \<^verbatim>\<open>ORDER BY\<close> with a given order of two rows: a stable insertion sort. (The engine
  promises no order among rows that compare equal.)
\<close>

fun insert_by :: "('a \<Rightarrow> 'a \<Rightarrow> bool) \<Rightarrow> 'a \<Rightarrow> 'a list \<Rightarrow> 'a list" where
  "insert_by le x [] = [x]"
| "insert_by le x (y # ys) = (if le x y then x # y # ys else y # insert_by le x ys)"

definition sort_by :: "('a \<Rightarrow> 'a \<Rightarrow> bool) \<Rightarrow> 'a list \<Rightarrow> 'a list" where
  "sort_by le xs = foldr (insert_by le) xs []"

text \<open>
  The direction of \<^verbatim>\<open>ORDER BY col dir\<close>; any other word in that place is a syntax error.
\<close>

definition order_rows ::
  "string \<Rightarrow> ('a \<Rightarrow> 'a \<Rightarrow> bool) \<Rightarrow> 'a list \<Rightarrow> dberror + 'a list" where
  "order_rows dir le rows =
     (if dir = ''ASC'' then Inr (sort_by le rows)
      else if dir = ''DESC'' then Inr (sort_by (\<lambda>a b. le b a) rows)
      else Inl SyntaxError)"

text \<open>
  \<^verbatim>\<open>xs LEFT JOIN ys ON cond\<close>: every row of \<open>xs\<close> with each row of \<open>ys\<close> that matches it, or
  once with nulls when none does.
\<close>

definition left_join :: "'a list \<Rightarrow> 'b list \<Rightarrow> ('a \<Rightarrow> 'b \<Rightarrow> bool) \<Rightarrow> ('a \<times> 'b option) list" where
  "left_join xs ys cond =
     concat (map (\<lambda>x. case filter (cond x) ys of
                         [] \<Rightarrow> [(x, None)]
                       | m # ms \<Rightarrow> map (\<lambda>y. (x, Some y)) (m # ms)) xs)"

subsection \<open>The pagination block\<close>

text \<open>
  Every list handler ends with the same lines, on its \<^verbatim>\<open>page\<close>, its \<^verbatim>\<open>limit\<close> and the
  count it read back:
  \<^verbatim>\<open>
  const totalPages = Math.ceil(total / limit);
  pagination: { currentPage: parseInt(page), totalPages, total,
                hasNext: page < totalPages, hasPrev: page > 1 }
  \<close>
  (the count is named \<^verbatim>\<open>totalStores\<close>, \<^verbatim>\<open>totalUsers\<close> or \<^verbatim>\<open>totalRatings\<close> by the handler).
\<close>

record pagination =
  currentPage :: jsnum
  totalPages :: jsnum
  total :: int
  hasNext :: bool
  hasPrev :: bool

definition pagination_block :: "jsnum \<Rightarrow> jsnum \<Rightarrow> int \<Rightarrow> pagination" where
  "pagination_block page limit n =
     (let totalPages = js_ceil_div n limit
      in \<lparr>currentPage = js_parseInt page, totalPages = totalPages, total = n,
          hasNext = js_lt page totalPages, hasPrev = js_lt (Num 1) page\<rparr>)"

section \<open>The store and user handlers (routes/stores.js, routes/users.js)\<close>

text \<open>
  \<^verbatim>\<open>req.user\<close>, the authenticated principal that the token check has attached to the
  request.
\<close>

record principal =
  p_id :: int
  p_role :: string

text \<open>
  \<^verbatim>\<open>req.query\<close> of a list request: each parameter is absent or a string (\<^verbatim>\<open>role\<close> is read by
  the users list only).
\<close>

record list_query =
  q_page :: "jsnum option"
  q_limit :: "jsnum option"
  q_sortBy :: "string option"
  q_sortOrder :: "string option"
  q_search :: "string option"
  q_searchBy :: "string option"
  q_role :: "string option"

text \<open>A string of the request is truthy when it is present and not empty.\<close>

definition truthy :: "string option \<Rightarrow> bool" where
  "truthy x = (case x of None \<Rightarrow> False | Some s \<Rightarrow> s \<noteq> [])"

text \<open>
  \<^verbatim>\<open>validSortOrders.includes(sortOrder.toLowerCase()) ? sortOrder.toUpperCase() : dflt\<close>,
  the same line in every list handler.
\<close>

definition validSortOrders :: "string list" where
  "validSortOrders = [''asc'', ''desc'']"

definition sort_order :: "string \<Rightarrow> string \<Rightarrow> string" where
  "sort_order sortOrder dflt =
     (if toLowerCase sortOrder \<in> set validSortOrders then toUpperCase sortOrder else dflt)"

subsection \<open>\<^verbatim>\<open>GET /api/stores\<close>\<close>

definition stores_validSortFields :: "string list" where
  "stores_validSortFields =
     [''name'', ''email'', ''address'', ''average_rating'', ''total_ratings'', ''created_at'']"

definition stores_validSearchFields :: "string list" where
  "stores_validSearchFields = [''name'', ''address'']"

text \<open>\<^verbatim>\<open>validSortFields.includes(sortBy) ? sortBy : 'name'\<close>, and the same for \<^verbatim>\<open>searchBy\<close>.\<close>

definition stores_sortField :: "string \<Rightarrow> string" where
  "stores_sortField sortBy = (if sortBy \<in> set stores_validSortFields then sortBy else ''name'')"

definition stores_searchField :: "string \<Rightarrow> string" where
  "stores_searchField searchBy =
     (if searchBy \<in> set stores_validSearchFields then searchBy else ''name'')"

text \<open>
  The two statements the handler assembles, by their parts. The row query:
  \<^verbatim>\<open>
  SELECT s.id, ..., s.created_at, u.name as owner_name [, r.rating as user_rating]
  FROM stores s LEFT JOIN users u ON s.owner_id = u.id
  [LEFT JOIN ratings r ON s.id = r.store_id AND r.user_id = $1]
  WHERE 1=1 [AND LOWER(s.<searchField>) LIKE LOWER($n)] [AND s.owner_id = $n]
  ORDER BY s.<sortField> <order> LIMIT $n OFFSET $n
  \<close>
  and the count query:
  \<^verbatim>\<open>
  SELECT COUNT(*) FROM stores s
  WHERE 1=1 [AND LOWER(s.<searchField>) LIKE LOWER($n)] [AND s.owner_id = $n]
  \<close>
  A part in brackets is present when its field is not \<open>None\<close>; the field holds the names
  interpolated into the text and the parameters bound to it.
\<close>

record stores_select =
  sel_user_rating :: "int option"
  sel_search :: "(string \<times> string) option"
  sel_owner :: "int option"
  sel_order_by :: "string \<times> string"
  sel_limit :: jsnum
  sel_offset :: jsnum

record stores_count =
  cnt_search :: "(string \<times> string) option"
  cnt_owner :: "int option"

text \<open>
  The order of two nullable numbers under \<^verbatim>\<open>ORDER BY\<close>: \<^verbatim>\<open>NULL\<close> counts as larger than every
  number.
\<close>

definition null_last_le :: "int option \<Rightarrow> int option \<Rightarrow> bool" where
  "null_last_le a b =
     (case b of None \<Rightarrow> True | Some y \<Rightarrow> (case a of None \<Rightarrow> False | Some x \<Rightarrow> x \<le> y))"

text \<open>The text columns and the sortable columns of \<^verbatim>\<open>stores\<close>, by name.\<close>

definition store_text_column :: "string \<Rightarrow> (store \<Rightarrow> string) option" where
  "store_text_column f =
     (if f = ''name'' then Some s_name
      else if f = ''email'' then Some s_email
      else if f = ''address'' then Some s_address
      else None)"

definition store_order :: "string \<Rightarrow> (store \<Rightarrow> store \<Rightarrow> bool) option" where
  "store_order f =
     (if f = ''name'' then Some (\<lambda>a b. str_le (s_name a) (s_name b))
      else if f = ''email'' then Some (\<lambda>a b. str_le (s_email a) (s_email b))
      else if f = ''address'' then Some (\<lambda>a b. str_le (s_address a) (s_address b))
      else if f = ''average_rating'' then Some (\<lambda>a b. null_last_le (average_rating a) (average_rating b))
      else if f = ''total_ratings'' then Some (\<lambda>a b. null_last_le (total_ratings a) (total_ratings b))
      else if f = ''created_at'' then Some (\<lambda>a b. s_created_at a \<le> s_created_at b)
      else None)"

text \<open>The \<^verbatim>\<open>WHERE\<close> clause of both statements, as a test on a store row.\<close>

definition stores_where ::
  "(string \<times> string) option \<Rightarrow> int option \<Rightarrow> dberror + (store \<Rightarrow> bool)" where
  "stores_where srch owner =
     (let owner_ok = (\<lambda>s. case owner of None \<Rightarrow> True | Some uid \<Rightarrow> owner_id s = Some uid)
      in case srch of
           None \<Rightarrow> Inr owner_ok
         | Some (field, pattern) \<Rightarrow>
             (case store_text_column field of
                None \<Rightarrow> Inl UndefinedColumn
              | Some col \<Rightarrow>
                  Inr (\<lambda>s. sql_like (toLowerCase (col s)) (toLowerCase pattern) \<and> owner_ok s)))"

text \<open>
  A row of the result: the store, the user joined as its owner, and the rating joined
  for the requesting user (the select list projects columns of the three).
\<close>

type_synonym store_row = "store \<times> user option \<times> rating option"

definition stores_joined :: "db \<Rightarrow> int option \<Rightarrow> store_row list" where
  "stores_joined d user_rating =
     (let with_owner = left_join (stores d) (users d) (\<lambda>s u. owner_id s = Some (u_id u))
      in case user_rating of
           None \<Rightarrow> map (\<lambda>(s, u). (s, u, None)) with_owner
         | Some uid \<Rightarrow>
             map (\<lambda>((s, u), r). (s, u, r))
               (left_join with_owner (ratings d)
                  (\<lambda>(s, u) r. s_id s = store_id r \<and> user_id r = uid)))"

definition run_stores_select :: "db \<Rightarrow> stores_select \<Rightarrow> dberror + store_row list" where
  "run_stores_select d q =
     (case stores_where (sel_search q) (sel_owner q) of
        Inl e \<Rightarrow> Inl e
      | Inr pred \<Rightarrow>
          (case store_order (fst (sel_order_by q)) of
             None \<Rightarrow> Inl UndefinedColumn
           | Some le \<Rightarrow>
               (case order_rows (snd (sel_order_by q)) (\<lambda>a b. le (fst a) (fst b))
                       (filter (\<lambda>row. pred (fst row)) (stores_joined d (sel_user_rating q))) of
                  Inl e \<Rightarrow> Inl e
                | Inr ordered \<Rightarrow> sql_limit_offset (sel_limit q) (sel_offset q) ordered)))"

definition run_stores_count :: "db \<Rightarrow> stores_count \<Rightarrow> dberror + int" where
  "run_stores_count d q =
     (case stores_where (cnt_search q) (cnt_owner q) of
        Inl e \<Rightarrow> Inl e
      | Inr pred \<Rightarrow> Inr (int (length (filter pred (stores d)))))"

text \<open>The statements the handler builds from the principal and the query string.\<close>

definition stores_list_select :: "principal \<Rightarrow> list_query \<Rightarrow> stores_select" where
  "stores_list_select usr q =
     (let page = or_default (q_page q) (Num 1);
          limit = or_default (q_limit q) (Num 10);
          sortBy = or_default (q_sortBy q) ''name'';
          sortOrder = or_default (q_sortOrder q) ''asc'';
          search = or_default (q_search q) [];
          searchBy = or_default (q_searchBy q) ''name'';
          offset = js_mul (js_sub page (Num 1)) limit;
          sortField = stores_sortField sortBy;
          order = sort_order sortOrder ''ASC'';
          searchField = stores_searchField searchBy
      in \<lparr>sel_user_rating = (if p_role usr = ''NORMAL_USER'' then Some (p_id usr) else None),
          sel_search = (if search \<noteq> [] then Some (searchField, ''%'' @ search @ ''%'') else None),
          sel_owner = (if p_role usr = ''STORE_OWNER'' then Some (p_id usr) else None),
          sel_order_by = (sortField, order),
          sel_limit = limit,
          sel_offset = offset\<rparr>)"

definition stores_list_count :: "principal \<Rightarrow> list_query \<Rightarrow> stores_count" where
  "stores_list_count usr q =
     (let search = or_default (q_search q) [];
          searchBy = or_default (q_searchBy q) ''name'';
          searchField = stores_searchField searchBy
      in \<lparr>cnt_search = (if search \<noteq> [] then Some (searchField, ''%'' @ search @ ''%'') else None),
          cnt_owner = (if p_role usr = ''STORE_OWNER'' then Some (p_id usr) else None)\<rparr>)"

text \<open>The handler: the rows and the pagination block, or status 500.\<close>

definition get_stores ::
  "db \<Rightarrow> principal \<Rightarrow> list_query \<Rightarrow> error + store_row list \<times> pagination" where
  "get_stores d usr q =
     (let page = or_default (q_page q) (Num 1);
          limit = or_default (q_limit q) (Num 10)
      in case run_stores_select d (stores_list_select usr q) of
           Inl e \<Rightarrow> Inl (HttpError 500 ''Server error fetching stores'')
         | Inr rows \<Rightarrow>
             (case run_stores_count d (stores_list_count usr q) of
                Inl e \<Rightarrow> Inl (HttpError 500 ''Server error fetching stores'')
              | Inr totalStores \<Rightarrow> Inr (rows, pagination_block page limit totalStores)))"

subsection \<open>\<^verbatim>\<open>GET /api/stores/:id\<close>\<close>

text \<open>
  The row query is that of the list with \<^verbatim>\<open>WHERE s.id = $1\<close>; it also selects
  \<^verbatim>\<open>u.id as owner_id\<close>, which the ownership test reads.
\<close>

definition get_store_by_id :: "db \<Rightarrow> principal \<Rightarrow> int \<Rightarrow> error + store_row" where
  "get_store_by_id d usr storeId =
     (case filter (\<lambda>(s, u, r). s_id s = storeId)
             (stores_joined d (if p_role usr = ''NORMAL_USER'' then Some (p_id usr) else None)) of
        [] \<Rightarrow> Inl (HttpError 404 ''Store not found'')
      | (s, u, r) # _ \<Rightarrow>
          if p_role usr = ''STORE_OWNER'' \<and> map_option u_id u \<noteq> Some (p_id usr)
          then Inl (HttpError 403 ''Access denied'')
          else Inr (s, u, r))"

subsection \<open>\<^verbatim>\<open>POST /api/stores\<close>\<close>

text \<open>
  \<^verbatim>\<open>INSERT INTO stores (name, email, address, owner_id) VALUES ($1, $2, $3, $4)
  RETURNING ...\<close>, at the clock reading \<open>now\<close>: the id from the sequence, the defaults
  \<^verbatim>\<open>average_rating = 0.0\<close> and \<^verbatim>\<open>total_ratings = 0\<close>, then the constraints of the table.
\<close>

definition insert_store ::
  "db \<Rightarrow> nat \<Rightarrow> string \<Rightarrow> string \<Rightarrow> string \<Rightarrow> int option \<Rightarrow> db \<times> (dberror + store)" where
  "insert_store d now name email address owner =
     (let row = \<lparr>s_id = stores_id_seq d, s_name = name, s_email = email, s_address = address,
                 owner_id = owner, average_rating = Some 0, total_ratings = Some 0, s_created_at = now\<rparr>;
          d0 = d\<lparr>stores_id_seq := stores_id_seq d + 1\<rparr>
      in if 60 < length name \<or> 255 < length email \<or> 400 < length address
           then (d0, Inl StringDataRightTruncation)
         else if length name < 20 then (d0, Inl CheckViolation)
         else if list_ex (\<lambda>s. s_id s = s_id row) (stores d) \<or> list_ex (\<lambda>s. s_email s = email) (stores d)
           then (d0, Inl UniqueViolation)
         else if (case owner of None \<Rightarrow> False | Some uid \<Rightarrow> \<not> list_ex (\<lambda>u. u_id u = uid) (users d))
           then (d0, Inl ForeignKeyViolation)
         else (d0\<lparr>stores := stores d @ [row]\<rparr>, Inr row))"

text \<open>
  The handler, behind \<^verbatim>\<open>requireAdmin\<close> and the body validation. \<^verbatim>\<open>ownerId\<close> is a number or
  absent, and \<^verbatim>\<open>if (ownerId)\<close> takes 0 for absent, as \<^verbatim>\<open>ownerId || null\<close> does.
\<close>

definition post_store ::
  "db \<Rightarrow> nat \<Rightarrow> string \<Rightarrow> string \<Rightarrow> string \<Rightarrow> int option \<Rightarrow> db \<times> (error + store)" where
  "post_store d now name email address ownerId =
     (let owner = (case ownerId of None \<Rightarrow> None | Some n \<Rightarrow> if n = 0 then None else Some n)
      in if list_ex (\<lambda>s. s_email s = email) (stores d)
           then (d, Inl (HttpError 400 ''Store already exists with this email''))
         else
           (case (case owner of
                    None \<Rightarrow> None
                  | Some uid \<Rightarrow>
                      (case filter (\<lambda>u. u_id u = uid) (users d) of
                         [] \<Rightarrow> Some (HttpError 400 ''Owner not found'')
                       | u # _ \<Rightarrow>
                           if u_role u \<noteq> ''STORE_OWNER''
                             then Some (HttpError 400 ''User must be a store owner'')
                           else if list_ex (\<lambda>s. owner_id s = Some uid) (stores d)
                             then Some (HttpError 400 ''Store owner already has a store'')
                           else None)) of
              Some e \<Rightarrow> (d, Inl e)
            | None \<Rightarrow>
                (case insert_store d now name email address owner of
                   (d', Inl e) \<Rightarrow> (d', Inl (HttpError 500 ''Server error creating store''))
                 | (d', Inr row) \<Rightarrow> (d', Inr row))))"

subsection \<open>\<^verbatim>\<open>PUT /api/stores/:id\<close>\<close>

text \<open>
  \<^verbatim>\<open>UPDATE stores SET [name = $n,] [email = $n,] [address = $n,]
  updated_at = CURRENT_TIMESTAMP WHERE id = $n RETURNING ...\<close>, with the columns whose
  value is truthy.
\<close>

definition update_store ::
  "db \<Rightarrow> int \<Rightarrow> string option \<Rightarrow> string option \<Rightarrow> string option \<Rightarrow> dberror + db \<times> store list" where
  "update_store d storeId name email address =
     (let set_cols = (\<lambda>s. s\<lparr>s_name := (if truthy name then or_default name [] else s_name s),
                            s_email := (if truthy email then or_default email [] else s_email s),
                            s_address := (if truthy address then or_default address [] else s_address s)\<rparr>);
          news = map set_cols (filter (\<lambda>s. s_id s = storeId) (stores d))
      in if list_ex (\<lambda>s. 60 < length (s_name s) \<or> 255 < length (s_email s) \<or> 400 < length (s_address s)) news
           then Inl StringDataRightTruncation
         else if list_ex (\<lambda>s. length (s_name s) < 20) news then Inl CheckViolation
         else if list_ex (\<lambda>n. list_ex (\<lambda>s. s_id s \<noteq> storeId \<and> s_email s = s_email n) (stores d)) news
           then Inl UniqueViolation
         else Inr (d\<lparr>stores := map (\<lambda>s. if s_id s = storeId then set_cols s else s) (stores d)\<rparr>,
                   news))"

definition put_store ::
  "db \<Rightarrow> principal \<Rightarrow> int \<Rightarrow> string option \<Rightarrow> string option \<Rightarrow> string option
     \<Rightarrow> db \<times> (error + store option)" where
  "put_store d usr storeId name email address =
     (case filter (\<lambda>s. s_id s = storeId) (stores d) of
        [] \<Rightarrow> (d, Inl (HttpError 404 ''Store not found''))
      | store # _ \<Rightarrow>
          if p_role usr = ''STORE_OWNER'' \<and> owner_id store \<noteq> Some (p_id usr)
            then (d, Inl (HttpError 403 ''Access denied''))
          else if truthy email \<and>
                  list_ex (\<lambda>s. s_email s = or_default email [] \<and> s_id s \<noteq> storeId) (stores d)
            then (d, Inl (HttpError 400 ''Email already exists''))
          else if \<not> truthy name \<and> \<not> truthy email \<and> \<not> truthy address
            then (d, Inl (HttpError 400 ''No valid fields to update''))
          else (case update_store d storeId name email address of
                  Inl e \<Rightarrow> (d, Inl (HttpError 500 ''Server error updating store''))
                | Inr (d', rows) \<Rightarrow> (d', Inr (case rows of [] \<Rightarrow> None | r # _ \<Rightarrow> Some r))))"

subsection \<open>\<^verbatim>\<open>DELETE /api/stores/:id\<close>\<close>

text \<open>
  \<^verbatim>\<open>DELETE FROM stores WHERE id = $1\<close>. The foreign key of \<^verbatim>\<open>ratings.store_id\<close> is
  \<^verbatim>\<open>ON DELETE CASCADE\<close>: the rating rows of the store go with it, and the row trigger runs
  for each of them when the tables have been changed.
\<close>

definition delete_store :: "db \<Rightarrow> int \<Rightarrow> dberror + db" where
  "delete_store d sid =
     rating_update_trigger (map (\<lambda>r. (None, Some r)) (filter (\<lambda>r. store_id r = sid) (ratings d)))
       (d\<lparr>stores := filter (\<lambda>s. s_id s \<noteq> sid) (stores d),
          ratings := filter (\<lambda>r. store_id r \<noteq> sid) (ratings d)\<rparr>)"

text \<open>The handler, behind \<^verbatim>\<open>requireAdmin\<close>.\<close>

definition delete_store_handler :: "db \<Rightarrow> int \<Rightarrow> db \<times> (error + unit)" where
  "delete_store_handler d storeId =
     (if \<not> store_exists d storeId then (d, Inl (HttpError 404 ''Store not found''))
      else case delete_store d storeId of
             Inl e \<Rightarrow> (d, Inl (HttpError 500 ''Server error deleting store''))
           | Inr d' \<Rightarrow> (d', Inr ()))"

subsection \<open>\<^verbatim>\<open>GET /api/users\<close>\<close>

definition users_validSortFields :: "string list" where
  "users_validSortFields = [''name'', ''email'', ''address'', ''role'', ''created_at'']"

definition users_validSearchFields :: "string list" where
  "users_validSearchFields = [''name'', ''email'', ''address'', ''role'']"

definition users_sortField :: "string \<Rightarrow> string" where
  "users_sortField sortBy = (if sortBy \<in> set users_validSortFields then sortBy else ''name'')"

definition users_searchField :: "string \<Rightarrow> string" where
  "users_searchField searchBy =
     (if searchBy \<in> set users_validSearchFields then searchBy else ''name'')"

text \<open>
  The row query
  \<^verbatim>\<open>
  SELECT u.id, ..., u.created_at,
         CASE WHEN u.role = 'STORE_OWNER' THEN s.average_rating ELSE NULL END as store_rating
  FROM users u LEFT JOIN stores s ON u.id = s.owner_id AND u.role = 'STORE_OWNER'
  WHERE 1=1 [AND LOWER(u.<searchField>) LIKE LOWER($n)] [AND u.role = $n]
  ORDER BY u.<sortField> <order> LIMIT $n OFFSET $n
  \<close>
  and the count query
  \<^verbatim>\<open>
  SELECT COUNT(*) FROM users
  WHERE 1=1 [AND LOWER(<searchField>) LIKE LOWER($n)] [AND role = $n]
  \<close>
\<close>

record users_select =
  usel_search :: "(string \<times> string) option"
  usel_role :: "string option"
  usel_order_by :: "string \<times> string"
  usel_limit :: jsnum
  usel_offset :: jsnum

record users_count =
  ucnt_search :: "(string \<times> string) option"
  ucnt_role :: "string option"

definition user_text_column :: "string \<Rightarrow> (user \<Rightarrow> string) option" where
  "user_text_column f =
     (if f = ''name'' then Some u_name
      else if f = ''email'' then Some u_email
      else if f = ''address'' then Some u_address
      else if f = ''role'' then Some u_role
      else None)"

definition user_order :: "string \<Rightarrow> (user \<Rightarrow> user \<Rightarrow> bool) option" where
  "user_order f =
     (if f = ''name'' then Some (\<lambda>a b. str_le (u_name a) (u_name b))
      else if f = ''email'' then Some (\<lambda>a b. str_le (u_email a) (u_email b))
      else if f = ''address'' then Some (\<lambda>a b. str_le (u_address a) (u_address b))
      else if f = ''role'' then Some (\<lambda>a b. str_le (u_role a) (u_role b))
      else if f = ''created_at'' then Some (\<lambda>a b. u_created_at a \<le> u_created_at b)
      else None)"

definition users_where ::
  "(string \<times> string) option \<Rightarrow> string option \<Rightarrow> dberror + (user \<Rightarrow> bool)" where
  "users_where srch rl =
     (let role_ok = (\<lambda>u. case rl of None \<Rightarrow> True | Some x \<Rightarrow> u_role u = x)
      in case srch of
           None \<Rightarrow> Inr role_ok
         | Some (field, pattern) \<Rightarrow>
             (case user_text_column field of
                None \<Rightarrow> Inl UndefinedColumn
              | Some col \<Rightarrow>
                  Inr (\<lambda>u. sql_like (toLowerCase (col u)) (toLowerCase pattern) \<and> role_ok u)))"

text \<open>A row of the result: the user and \<^verbatim>\<open>store_rating\<close>.\<close>

type_synonym user_row = "user \<times> int option"

definition users_joined :: "db \<Rightarrow> user_row list" where
  "users_joined d =
     map (\<lambda>(u, s). (u, if u_role u = ''STORE_OWNER''
                        then (case s of None \<Rightarrow> None | Some st \<Rightarrow> average_rating st) else None))
       (left_join (users d) (stores d)
          (\<lambda>u s. owner_id s = Some (u_id u) \<and> u_role u = ''STORE_OWNER''))"

definition run_users_select :: "db \<Rightarrow> users_select \<Rightarrow> dberror + user_row list" where
  "run_users_select d q =
     (case users_where (usel_search q) (usel_role q) of
        Inl e \<Rightarrow> Inl e
      | Inr pred \<Rightarrow>
          (case user_order (fst (usel_order_by q)) of
             None \<Rightarrow> Inl UndefinedColumn
           | Some le \<Rightarrow>
               (case order_rows (snd (usel_order_by q)) (\<lambda>a b. le (fst a) (fst b))
                       (filter (\<lambda>row. pred (fst row)) (users_joined d)) of
                  Inl e \<Rightarrow> Inl e
                | Inr ordered \<Rightarrow> sql_limit_offset (usel_limit q) (usel_offset q) ordered)))"

definition run_users_count :: "db \<Rightarrow> users_count \<Rightarrow> dberror + int" where
  "run_users_count d q =
     (case users_where (ucnt_search q) (ucnt_role q) of
        Inl e \<Rightarrow> Inl e
      | Inr pred \<Rightarrow> Inr (int (length (filter pred (users d)))))"

definition users_list_select :: "list_query \<Rightarrow> users_select" where
  "users_list_select q =
     (let page = or_default (q_page q) (Num 1);
          limit = or_default (q_limit q) (Num 10);
          sortBy = or_default (q_sortBy q) ''name'';
          sortOrder = or_default (q_sortOrder q) ''asc'';
          search = or_default (q_search q) [];
          searchBy = or_default (q_searchBy q) ''name'';
          role = or_default (q_role q) [];
          offset = js_mul (js_sub page (Num 1)) limit;
          sortField = users_sortField sortBy;
          order = sort_order sortOrder ''ASC'';
          searchField = users_searchField searchBy
      in \<lparr>usel_search = (if search \<noteq> [] then Some (searchField, ''%'' @ search @ ''%'') else None),
          usel_role = (if role \<noteq> [] then Some role else None),
          usel_order_by = (sortField, order),
          usel_limit = limit,
          usel_offset = offset\<rparr>)"

definition users_list_count :: "list_query \<Rightarrow> users_count" where
  "users_list_count q =
     (let search = or_default (q_search q) [];
          searchBy = or_default (q_searchBy q) ''name'';
          role = or_default (q_role q) [];
          searchField = users_searchField searchBy
      in \<lparr>ucnt_search = (if search \<noteq> [] then Some (searchField, ''%'' @ search @ ''%'') else None),
          ucnt_role = (if role \<noteq> [] then Some role else None)\<rparr>)"

text \<open>The handler, behind \<^verbatim>\<open>requireAdmin\<close>.\<close>

definition get_users :: "db \<Rightarrow> list_query \<Rightarrow> error + user_row list \<times> pagination" where
  "get_users d q =
     (let page = or_default (q_page q) (Num 1);
          limit = or_default (q_limit q) (Num 10)
      in case run_users_select d (users_list_select q) of
           Inl e \<Rightarrow> Inl (HttpError 500 ''Server error fetching users'')
         | Inr rows \<Rightarrow>
             (case run_users_count d (users_list_count q) of
                Inl e \<Rightarrow> Inl (HttpError 500 ''Server error fetching users'')
              | Inr totalUsers \<Rightarrow> Inr (rows, pagination_block page limit totalUsers)))"

subsection \<open>\<^verbatim>\<open>GET /api/users/:id\<close>\<close>

text \<open>
  The payload is the user with \<^verbatim>\<open>store_rating\<close> and \<^verbatim>\<open>store_id\<close>, both \<^verbatim>\<open>CASE WHEN u.role =
  'STORE_OWNER' THEN ... ELSE NULL END\<close> over the same join as in the list.
\<close>

definition get_user_by_id ::
  "db \<Rightarrow> principal \<Rightarrow> int \<Rightarrow> error + user \<times> int option \<times> int option" where
  "get_user_by_id d usr userId =
     (if p_role usr \<noteq> ''SYSTEM_ADMIN'' \<and> p_id usr \<noteq> userId
        then Inl (HttpError 403 ''Access denied'')
      else case filter (\<lambda>(u, s). u_id u = userId)
                  (left_join (users d) (stores d)
                     (\<lambda>u s. owner_id s = Some (u_id u) \<and> u_role u = ''STORE_OWNER'')) of
             [] \<Rightarrow> Inl (HttpError 404 ''User not found'')
           | (u, s) # _ \<Rightarrow>
               Inr (u, if u_role u = ''STORE_OWNER''
                       then (case s of None \<Rightarrow> None | Some st \<Rightarrow> average_rating st) else None,
                       if u_role u = ''STORE_OWNER'' then map_option s_id s else None))"

subsection \<open>The sort fields of the rating lists (routes/ratings.js, routes/stores.js)\<close>

text \<open>
  \<^verbatim>\<open>GET /api/ratings/user/:userId\<close> and \<^verbatim>\<open>GET /api/ratings/my-ratings\<close> sort by one of
  \<^verbatim>\<open>['rating', 'created_at', 'store_name']\<close>; \<^verbatim>\<open>GET /api/ratings/store/:storeId\<close> and
  \<^verbatim>\<open>GET /api/stores/:id/ratings\<close> by one of \<^verbatim>\<open>['rating', 'created_at', 'user_name']\<close>; each
  with \<^verbatim>\<open>validSortFields.includes(sortBy) ? sortBy : 'created_at'\<close>.
\<close>

definition user_ratings_validSortFields :: "string list" where
  "user_ratings_validSortFields = [''rating'', ''created_at'', ''store_name'']"

definition store_ratings_validSortFields :: "string list" where
  "store_ratings_validSortFields = [''rating'', ''created_at'', ''user_name'']"

definition user_ratings_sortField :: "string \<Rightarrow> string" where
  "user_ratings_sortField sortBy =
     (if sortBy \<in> set user_ratings_validSortFields then sortBy else ''created_at'')"

definition store_ratings_sortField :: "string \<Rightarrow> string" where
  "store_ratings_sortField sortBy =
     (if sortBy \<in> set store_ratings_validSortFields then sortBy else ''created_at'')"

subsection \<open>\<^verbatim>\<open>DELETE /api/users/:id\<close>\<close>

text \<open>
  \<^verbatim>\<open>DELETE FROM users WHERE id = $1\<close>. The foreign keys of \<^verbatim>\<open>stores.owner_id\<close>,
  \<^verbatim>\<open>ratings.user_id\<close> and \<^verbatim>\<open>ratings.store_id\<close> are \<^verbatim>\<open>ON DELETE CASCADE\<close>: the stores that the
  user owns go with the user, and so do the ratings of those stores and the ratings that
  the user gave; the row trigger runs for each rating row deleted, when the tables have
  been changed.
\<close>

definition delete_user :: "db \<Rightarrow> int \<Rightarrow> dberror + db" where
  "delete_user d uid =
     (let owned = map s_id (filter (\<lambda>s. owner_id s = Some uid) (stores d));
          dead = (\<lambda>r. user_id r = uid \<or> store_id r \<in> set owned)
      in rating_update_trigger (map (\<lambda>r. (None, Some r)) (filter dead (ratings d)))
           (d\<lparr>users := filter (\<lambda>u. u_id u \<noteq> uid) (users d),
              stores := filter (\<lambda>s. owner_id s \<noteq> Some uid) (stores d),
              ratings := filter (\<lambda>r. \<not> dead r) (ratings d)\<rparr>))"

text \<open>The handler, behind \<^verbatim>\<open>requireAdmin\<close>.\<close>

definition delete_user_handler :: "db \<Rightarrow> principal \<Rightarrow> int \<Rightarrow> db \<times> (error + unit)" where
  "delete_user_handler d usr userId =
     (if p_id usr = userId then (d, Inl (HttpError 400 ''Cannot delete your own account''))
      else if \<not> list_ex (\<lambda>u. u_id u = userId) (users d)
        then (d, Inl (HttpError 404 ''User not found''))
      else case delete_user d userId of
             Inl e \<Rightarrow> (d, Inl (HttpError 500 ''Server error deleting user''))
           | Inr d' \<Rightarrow> (d', Inr ()))"

section \<open>The stores router (routes/stores.js)\<close>

text \<open>
  The routes in the order of their registration. A path is a list of segments, relative
  to the mount point \<^verbatim>\<open>/api/stores\<close>; a pattern is a list of literal segments and named
  parameters. The framework matches a literal without regard to the case of letters, a
  parameter \<^verbatim>\<open>:x\<close> matches any one non-empty segment, and a request goes to the first
  route of its method whose pattern matches the whole path. No handler of this router
  passes a request on.
\<close>

datatype http_method = GET | POST | PUT | DELETE

datatype segment = Lit string | Param string

datatype stores_handler =
    ListStores
  | GetStoreById
  | CreateStore
  | UpdateStore
  | DeleteStore
  | GetStoreRatings
  | GetMyStore
  | GetMyStoreRatings

definition stores_router :: "(http_method \<times> segment list \<times> stores_handler) list" where
  "stores_router =
     [(GET, [], ListStores),
      (GET, [Param ''id''], GetStoreById),
      (POST, [], CreateStore),
      (PUT, [Param ''id''], UpdateStore),
      (DELETE, [Param ''id''], DeleteStore),
      (GET, [Param ''id'', Lit ''ratings''], GetStoreRatings),
      (GET, [Lit ''my-store''], GetMyStore),
      (GET, [Lit ''my-store'', Lit ''ratings''], GetMyStoreRatings)]"

text \<open>The match of a pattern with a path: the values of the parameters, \<^verbatim>\<open>req.params\<close>.\<close>

fun match_path :: "segment list \<Rightarrow> string list \<Rightarrow> (string \<times> string) list option" where
  "match_path [] [] = Some []"
| "match_path (Lit l # ps) (s # ss) =
     (if toLowerCase s = toLowerCase l then match_path ps ss else None)"
| "match_path (Param x # ps) (s # ss) =
     (if s = [] then None
      else case match_path ps ss of None \<Rightarrow> None | Some params \<Rightarrow> Some ((x, s) # params))"
| "match_path _ _ = None"

fun dispatch ::
  "(http_method \<times> segment list \<times> 'h) list \<Rightarrow> http_method \<Rightarrow> string list
     \<Rightarrow> ('h \<times> (string \<times> string) list) option" where
  "dispatch [] m path = None"
| "dispatch ((m', pattern, h) # routes) m path =
     (if m' = m
      then case match_path pattern path of
             Some params \<Rightarrow> Some (h, params)
           | None \<Rightarrow> dispatch routes m path
      else dispatch routes m path)"

section \<open>Runs of requests\<close>

text \<open>
  The requests that write to \<^verbatim>\<open>stores\<close> or \<^verbatim>\<open>ratings\<close>, each with the arguments of its
  handler, and the state of the database after a sequence of them. (No handler under
  these routes inserts a user.)
\<close>

datatype request =
    PostRating int int int "string option"
  | PutRating int int int "string option"
  | DeleteRating int int
  | PostStore nat string string string "int option"
  | PutStore principal int "string option" "string option" "string option"
  | DeleteStore int
  | DeleteUser principal int

fun handle :: "db \<Rightarrow> request \<Rightarrow> db" where
  "handle d (PostRating userId storeId val c) = fst (post_rating d userId storeId val c)"
| "handle d (PutRating userId storeId val c) = fst (put_rating d userId storeId val c)"
| "handle d (DeleteRating userId storeId) = fst (delete_rating_handler d userId storeId)"
| "handle d (PostStore now name email address ownerId) =
     fst (post_store d now name email address ownerId)"
| "handle d (PutStore usr storeId name email address) =
     fst (put_store d usr storeId name email address)"
| "handle d (DeleteStore storeId) = fst (delete_store_handler d storeId)"
| "handle d (DeleteUser usr userId) = fst (delete_user_handler d usr userId)"

fun run :: "db \<Rightarrow> request list \<Rightarrow> db" where
  "run d [] = d"
| "run d (x # xs) = run (handle d x) xs"

section \<open>The properties under test\<close>

text \<open>The rating rows of one store: \<^verbatim>\<open>SELECT ... FROM ratings WHERE store_id = sid\<close>.\<close>

definition store_ratings :: "rating list \<Rightarrow> int \<Rightarrow> rating list" where
  "store_ratings R sid = filter (\<lambda>r. store_id r = sid) R"

text \<open>
  The invariant of the data model for one store row: \<^verbatim>\<open>total_ratings\<close> is the number of
  the store's rating rows, and \<^verbatim>\<open>average_rating\<close> is their mean rounded to one digit after
  the point (in tenths: the nearest integer to ten times the mean), or 0 when there is
  no row; neither is \<^verbatim>\<open>NULL\<close>.
\<close>

definition aggregates_agree :: "rating list \<Rightarrow> store \<Rightarrow> bool" where
  "aggregates_agree R s =
     (let rs = store_ratings R (s_id s)
      in total_ratings s = Some (int (length rs)) \<and>
         average_rating s =
           Some (if rs = [] then 0
                 else round (10 * real_of_int (sum_list (map rating rs)) / real (length rs))))"

text \<open>
  The invariant for a state of the database: every rating row satisfies the \<^verbatim>\<open>CHECK\<close>
  constraint of its table and refers to a store that exists (its foreign key), and
  every store row agrees with its rating rows.
\<close>

definition db_invariant :: "db \<Rightarrow> bool" where
  "db_invariant d \<longleftrightarrow>
     (\<forall>r\<in>set (ratings d). 1 \<le> rating r \<and> rating r \<le> 5 \<and> store_exists d (store_id r)) \<and>
     (\<forall>s\<in>set (stores d). aggregates_agree (ratings d) s)"

section \<open>Example states\<close>

text \<open>
  A small database in the shape of the sample data of \<^verbatim>\<open>createSampleData\<close>: three normal
  users, two stores, and the ratings 5 and 4 on the first store, whose row holds the
  average 4.5 and the count 2.
\<close>

definition example_db :: db where
  "example_db =
     \<lparr>users = [\<lparr>u_id = 1, u_name = ''Alice Cooper - Regular Customer One'',
                 u_email = ''alice.cooper@example.com'', u_address = ''321 Elm Street'',
                 u_role = ''normal_user'', u_created_at = 1\<rparr>,
               \<lparr>u_id = 2, u_name = ''Bob Wilson - Regular Customer Two'',
                 u_email = ''bob.wilson@example.com'', u_address = ''654 Maple Drive'',
                 u_role = ''normal_user'', u_created_at = 2\<rparr>,
               \<lparr>u_id = 3, u_name = ''Carol Davis - Regular Customer Three'',
                 u_email = ''carol.davis@example.com'', u_address = ''987 Cedar Lane'',
                 u_role = ''normal_user'', u_created_at = 3\<rparr>],
      stores = [\<lparr>s_id = 1, s_name = ''Premium Electronics Store - Best Tech Solutions'',
                  s_email = ''contact@premiumelectronics.com'', s_address = ''123 Main Street'',
                  owner_id = None, average_rating = Some 45, total_ratings = Some 2, s_created_at = 4\<rparr>,
                \<lparr>s_id = 2, s_name = ''Gourmet Food Market - Fresh Organic Products'',
                  s_email = ''orders@gourmetfoodmarket.com'', s_address = ''789 Pine Road'',
                  owner_id = None, average_rating = Some 0, total_ratings = Some 0, s_created_at = 5\<rparr>],
      ratings = [\<lparr>r_id = 1, user_id = 1, store_id = 1, rating = 5, comment = None\<rparr>,
                 \<lparr>r_id = 2, user_id = 2, store_id = 1, rating = 4, comment = None\<rparr>],
      stores_id_seq = 3, ratings_id_seq = 3\<rparr>"


text \<open>
  The scenario of the specification: a third user rates the first store 3, then deletes
  that rating; then the two other ratings are deleted. After that a store is created,
  rated, renamed and rated again; then the user who rated it first is deleted, and the
  first store.
\<close>

definition example_ops :: "request list" where
  "example_ops =
     [PostRating 3 1 3 None, DeleteRating 3 1, DeleteRating 1 1, DeleteRating 2 1,
      PostStore 6 ''Fashion Forward Boutique - Trendy Clothing Store''
        ''info@fashionforwardboutique.com'' ''456 Oak Avenue, Shopping Mall Complex'' None,
      PostRating 2 3 4 (Some ''fine''),
      PutStore \<lparr>p_id = 9, p_role = ''system_admin''\<rparr> 3
        (Some ''Fashion Forward Boutique - Clothing'') None None,
      PostRating 1 3 5 None,
      DeleteUser \<lparr>p_id = 9, p_role = ''system_admin''\<rparr> 2,
      DeleteStore 1]"

text \<open>
  The example database after \<^verbatim>\<open>UPDATE ratings SET store_id = 2 WHERE id = 2\<close> has changed
  the table and before the row trigger has run: the second rating now belongs to the
  second store.
\<close>

definition moved_db :: db where
  "moved_db = example_db\<lparr>ratings :=
      [\<lparr>r_id = 1, user_id = 1, store_id = 1, rating = 5, comment = None\<rparr>,
       \<lparr>r_id = 2, user_id = 2, store_id = 2, rating = 4, comment = None\<rparr>]\<rparr>"

text \<open>A list request with an empty query string, and an administrator as principal.\<close>

definition no_query :: list_query where
  "no_query = \<lparr>q_page = None, q_limit = None, q_sortBy = None, q_sortOrder = None,
               q_search = None, q_searchBy = None, q_role = None\<rparr>"

definition admin :: principal where
  "admin = \<lparr>p_id = 9, p_role = ''system_admin''\<rparr>"

text \<open>\<^verbatim>\<open>?page=2&limit=2&sortBy=email\<close>.\<close>

definition page2_query :: list_query where
  "page2_query = no_query\<lparr>q_page := Some (Num 2), q_limit := Some (Num 2), q_sortBy := Some ''email''\<rparr>"

text \<open>\<^verbatim>\<open>?page=2&search=zzz\<close>: no store of the example database matches.\<close>

definition empty_page2_query :: list_query where
  "empty_page2_query = no_query\<lparr>q_page := Some (Num 2), q_search := Some ''zzz''\<rparr>"

text \<open>\<^verbatim>\<open>?sortBy=unknown_field\<close>.\<close>

definition unknown_sort_query :: list_query where
  "unknown_sort_query = no_query\<lparr>q_sortBy := Some ''unknown_field''\<rparr>"

text \<open>
  The example database with two store owners, as the sample data creates them (role
  \<^verbatim>\<open>store_owner\<close>): user 4 owns the first store, user 5 owns none. And user 4 as the
  principal of a request.
\<close>

definition owner_db :: db where
  "owner_db = example_db\<lparr>users := users example_db @
      [\<lparr>u_id = 4, u_name = ''John Smith - Store Owner One'', u_email = ''storeowner1@example.com'',
        u_address = ''123 Main Street'', u_role = ''store_owner'', u_created_at = 6\<rparr>,
       \<lparr>u_id = 5, u_name = ''Sarah Johnson - Store Owner Two'', u_email = ''storeowner2@example.com'',
        u_address = ''456 Oak Avenue'', u_role = ''store_owner'', u_created_at = 7\<rparr>],
      stores := [(stores example_db ! 0)\<lparr>owner_id := Some 4\<rparr>, stores example_db ! 1]\<rparr>"

definition owner4 :: principal where
  "owner4 = \<lparr>p_id = 4, p_role = ''store_owner''\<rparr>"

text \<open>
  The same database with the role of user 5 written \<^verbatim>\<open>STORE_OWNER\<close>, which the \<^verbatim>\<open>CHECK\<close>
  constraint of \<^verbatim>\<open>users.role\<close> does not admit.
\<close>

definition upper_owner_db :: db where
  "upper_owner_db =
     owner_db\<lparr>users := map (\<lambda>u. if u_id u = 5 then u\<lparr>u_role := ''STORE_OWNER''\<rparr> else u)
                          (users owner_db)\<rparr>"

section \<open>The aggregate rule\<close>

subsection \<open>Rounding to one digit\<close>

lemma round_tenths:
  assumes "0 < c" "0 \<le> s"
  shows "(20 * s + c) div (2 * c) = round (10 * real_of_int s / real_of_int c)"
proof -
  have "10 * real_of_int s / real_of_int c + 1 / 2 = real_of_int (20 * s + c) / real_of_int (2 * c)"
    using assms by (simp add: field_simps)
  then show ?thesis
    unfolding round_def by (simp only: floor_divide_of_int_eq)
qed

lemma to_decimal_2_1_round:
  assumes "to_decimal_2_1 (Some (s, c)) = Inr v" "0 < c" "0 \<le> s"
  shows "v = Some (round (10 * real_of_int s / real_of_int c))"
proof (cases "s = 0")
  case True
  with assms show ?thesis by (auto simp: to_decimal_2_1_def Let_def split: if_splits)
next
  case False
  with assms have "0 < s" by simp
  then have "sgn s = 1" "\<bar>s\<bar> = s" by simp_all
  with assms have "v = Some ((20 * s + c) div (2 * c))"
    by (auto simp: to_decimal_2_1_def Let_def split: if_splits)
  with round_tenths[OF assms(2,3)] show ?thesis by simp
qed

text \<open>The value that the trigger assigns to \<^verbatim>\<open>average_rating\<close> is never \<^verbatim>\<open>NULL\<close>.\<close>

lemma coalesce_avg_round:
  assumes "to_decimal_2_1 (coalesce (sql_avg (map rating rs)) (Some (0, 1))) = Inr avg"
    and "0 \<le> sum_list (map rating rs)"
  shows "avg = Some (if rs = [] then 0
                     else round (10 * real_of_int (sum_list (map rating rs)) / real (length rs)))"
proof (cases "rs = []")
  case True
  with assms(1) show ?thesis
    by (auto simp: sql_avg_def coalesce_def to_decimal_2_1_def split: if_splits)
next
  case False
  then have c: "0 < int (length rs)" by simp
  from False assms(1)
  have "to_decimal_2_1 (Some (sum_list (map rating rs), int (length rs))) = Inr avg"
    by (simp add: sql_avg_def coalesce_def)
  from to_decimal_2_1_round[OF this c assms(2)] False show ?thesis by simp
qed

lemma sum_list_rating_nonneg:
  "\<forall>r\<in>set R. 1 \<le> rating r \<Longrightarrow> 0 \<le> sum_list (map rating (filter P R))"
  by (induction R) auto

subsection \<open>What the trigger leaves as it is\<close>

lemma update_store_rating_ratings:
  "update_store_rating NEW OLD d = Inr d' \<Longrightarrow>
   ratings d' = ratings d \<and> users d' = users d \<and> length (stores d') = length (stores d) \<and>
   map s_id (stores d') = map s_id (stores d) \<and>
   ratings_id_seq d' = ratings_id_seq d \<and> stores_id_seq d' = stores_id_seq d"
  by (auto simp: update_store_rating_def Let_def split: option.splits if_splits sum.splits)

lemma rating_update_trigger_ratings:
  "rating_update_trigger evs d = Inr d' \<Longrightarrow>
   ratings d' = ratings d \<and> users d' = users d \<and> map s_id (stores d') = map s_id (stores d) \<and>
   ratings_id_seq d' = ratings_id_seq d \<and> stores_id_seq d' = stores_id_seq d"
proof (induction evs arbitrary: d)
  case Nil
  then show ?case by simp
next
  case (Cons ev evs)
  obtain NEW OLD where ev: "ev = (NEW, OLD)" by (cases ev)
  with Cons.prems obtain d1 where d1: "update_store_rating NEW OLD d = Inr d1"
    and rest: "rating_update_trigger evs d1 = Inr d'"
    by (auto split: sum.splits)
  from update_store_rating_ratings[OF d1] Cons.IH[OF rest] show ?case by simp
qed

lemma store_exists_set: "store_exists d sid \<longleftrightarrow> sid \<in> set (map s_id (stores d))"
  by (auto simp: store_exists_def list_ex_iff)

lemma store_exists_ids:
  "map s_id (stores d') = map s_id (stores d) \<Longrightarrow> store_exists d' = store_exists d"
  by (rule ext) (simp only: store_exists_set)

subsection \<open>What the trigger recomputes\<close>

lemma update_store_rating_effect:
  assumes run: "update_store_rating NEW OLD d = Inr d'"
    and tgt: "coalesce (map_option store_id NEW) (map_option store_id OLD) = Some sid"
  shows "(\<exists>avg. to_decimal_2_1 (coalesce (sql_avg (map rating (store_ratings (ratings d) sid)))
                                 (Some (0, 1))) = Inr avg \<and>
           stores d' = map (\<lambda>s. if s_id s = sid
                                then s\<lparr>average_rating := avg,
                                       total_ratings := Some (int (length (store_ratings (ratings d) sid)))\<rparr>
                                else s) (stores d)) \<or>
         (stores d' = stores d \<and> \<not> list_ex (\<lambda>s. s_id s = sid) (stores d))"
  using run tgt
  by (auto simp: update_store_rating_def Let_def store_ratings_def split: if_splits sum.splits)

lemma update_store_rating_agree:
  assumes run: "update_store_rating NEW OLD d = Inr d'"
    and tgt: "coalesce (map_option store_id NEW) (map_option store_id OLD) = Some sid"
    and chk: "\<forall>r\<in>set (ratings d). 1 \<le> rating r"
    and s: "s \<in> set (stores d')"
  shows "if s_id s = sid then aggregates_agree (ratings d) s else s \<in> set (stores d)"
proof -
  let ?rs = "store_ratings (ratings d) sid"
  from update_store_rating_effect[OF run tgt]
  consider (upd) avg where
      "to_decimal_2_1 (coalesce (sql_avg (map rating ?rs)) (Some (0, 1))) = Inr avg"
      "stores d' = map (\<lambda>s. if s_id s = sid
                            then s\<lparr>average_rating := avg, total_ratings := Some (int (length ?rs))\<rparr>
                            else s) (stores d)"
    | (none) "stores d' = stores d" "\<not> list_ex (\<lambda>s. s_id s = sid) (stores d)"
    by blast
  then show ?thesis
  proof cases
    case upd
    from s upd(2) obtain s0 where s0: "s0 \<in> set (stores d)"
      and s_eq: "s = (if s_id s0 = sid
                      then s0\<lparr>average_rating := avg, total_ratings := Some (int (length ?rs))\<rparr>
                      else s0)"
      by auto
    show ?thesis
    proof (cases "s_id s0 = sid")
      case True
      have "0 \<le> sum_list (map rating ?rs)"
        unfolding store_ratings_def using chk by (rule sum_list_rating_nonneg)
      from coalesce_avg_round[OF upd(1) this]
      have avg: "avg = Some (if ?rs = [] then 0
                   else round (10 * real_of_int (sum_list (map rating ?rs)) / real (length ?rs)))" .
      from True s_eq have "s_id s = sid" "total_ratings s = Some (int (length ?rs))"
        "average_rating s = avg"
        by simp_all
      with avg show ?thesis by (simp add: aggregates_agree_def Let_def)
    next
      case False
      with s_eq s0 show ?thesis by simp
    qed
  next
    case none
    with s show ?thesis by (auto simp: list_ex_iff)
  qed
qed

text \<open>
  All runs of the trigger for one statement: a store row that some touched rating row
  points to is recomputed, and every other store row is as before.
\<close>

lemma rating_update_trigger_agree:
  assumes "rating_update_trigger evs d = Inr d'"
    and "\<forall>r\<in>set (ratings d). 1 \<le> rating r"
    and "s \<in> set (stores d')"
  shows "if \<exists>ev\<in>set evs.
              coalesce (map_option store_id (fst ev)) (map_option store_id (snd ev)) = Some (s_id s)
         then aggregates_agree (ratings d) s else s \<in> set (stores d)"
  using assms
proof (induction evs arbitrary: d)
  case Nil
  then show ?case by simp
next
  case (Cons ev evs)
  obtain NEW OLD where ev: "ev = (NEW, OLD)" by (cases ev)
  from Cons.prems(1) ev obtain d1 where d1: "update_store_rating NEW OLD d = Inr d1"
    and rest: "rating_update_trigger evs d1 = Inr d'"
    by (auto split: sum.splits)
  from update_store_rating_ratings[OF d1] have r1: "ratings d1 = ratings d" by simp
  with Cons.prems(2) have chk1: "\<forall>r\<in>set (ratings d1). 1 \<le> rating r" by simp
  note IH = Cons.IH[OF rest chk1 Cons.prems(3)]
  show ?case
  proof (cases "\<exists>ev\<in>set evs.
      coalesce (map_option store_id (fst ev)) (map_option store_id (snd ev)) = Some (s_id s)")
    case True
    with IH r1 show ?thesis by simp
  next
    case False
    with IH have s1: "s \<in> set (stores d1)" by simp
    show ?thesis
    proof (cases "coalesce (map_option store_id NEW) (map_option store_id OLD)")
      case None
      with d1 have "d1 = d" by (simp add: update_store_rating_def)
      with s1 None False ev show ?thesis by simp
    next
      case (Some sid)
      from update_store_rating_agree[OF d1 Some Cons.prems(2) s1] Some False ev
      show ?thesis by (auto split: if_splits)
    qed
  qed
qed

subsection \<open>The statements keep the invariant\<close>

text \<open>A store keeps its agreement when the rows of its own id are the same.\<close>

lemma aggregates_agree_cong:
  "store_ratings R' (s_id s) = store_ratings R (s_id s) \<Longrightarrow>
   aggregates_agree R s \<Longrightarrow> aggregates_agree R' s"
  by (simp add: aggregates_agree_def)

text \<open>
  A statement has changed the tables from \<open>d\<close> to \<open>d0\<close>, adding no store row, and the
  trigger then runs for the rows it touched: the invariant is kept when the stores that
  no touched row points to have the rating rows they had.
\<close>

lemma statement_preserves:
  assumes inv: "db_invariant d"
    and run: "rating_update_trigger evs d0 = Inr d'"
    and sub: "set (stores d0) \<subseteq> set (stores d)"
    and chk: "\<forall>r\<in>set (ratings d0). 1 \<le> rating r \<and> rating r \<le> 5 \<and> store_exists d0 (store_id r)"
    and others: "\<And>x. \<forall>ev\<in>set evs.
                    coalesce (map_option store_id (fst ev)) (map_option store_id (snd ev)) \<noteq> Some x \<Longrightarrow>
                  store_ratings (ratings d0) x = store_ratings (ratings d) x"
  shows "db_invariant d'"
proof -
  from chk have chk': "\<forall>r\<in>set (ratings d0). 1 \<le> rating r" by simp
  from rating_update_trigger_ratings[OF run]
  have r: "ratings d' = ratings d0" and ids: "map s_id (stores d') = map s_id (stores d0)"
    by simp_all
  have "aggregates_agree (ratings d0) s" if s: "s \<in> set (stores d')" for s
  proof (cases "\<exists>ev\<in>set evs.
      coalesce (map_option store_id (fst ev)) (map_option store_id (snd ev)) = Some (s_id s)")
    case True
    with rating_update_trigger_agree[OF run chk' s] show ?thesis by simp
  next
    case False
    with rating_update_trigger_agree[OF run chk' s] sub have "s \<in> set (stores d)" by auto
    with inv have "aggregates_agree (ratings d) s" by (simp add: db_invariant_def)
    moreover from False have "store_ratings (ratings d0) (s_id s) = store_ratings (ratings d) (s_id s)"
      by (intro others) simp
    ultimately show ?thesis by (auto intro: aggregates_agree_cong)
  qed
  moreover from store_exists_ids[OF ids] chk
  have "\<forall>r\<in>set (ratings d0). 1 \<le> rating r \<and> rating r \<le> 5 \<and> store_exists d' (store_id r)"
    by simp
  ultimately show ?thesis using r by (simp add: db_invariant_def)
qed

lemma db_invariant_seq [simp]:
  "db_invariant (d\<lparr>ratings_id_seq := n\<rparr>) = db_invariant d"
  "db_invariant (d\<lparr>stores_id_seq := n\<rparr>) = db_invariant d"
  by (simp_all add: db_invariant_def store_exists_def)

lemma insert_rating_preserves:
  assumes inv: "db_invariant d"
  shows "db_invariant (fst (insert_rating d uid sid val c))"
proof -
  let ?row = "\<lparr>r_id = ratings_id_seq d, user_id = uid, store_id = sid, rating = val, comment = c\<rparr>"
  let ?d0 = "d\<lparr>ratings_id_seq := ratings_id_seq d + 1\<rparr>"
  let ?d1 = "?d0\<lparr>ratings := ratings d @ [?row]\<rparr>"
  show ?thesis
  proof (cases "snd (insert_rating d uid sid val c)")
    case (Inl e)
    then have "fst (insert_rating d uid sid val c) = ?d0"
      by (auto simp: insert_rating_def Let_def split: if_splits sum.splits)
    with inv show ?thesis by simp
  next
    case (Inr row)
    then have val: "1 \<le> val \<and> val \<le> 5" and fk: "store_exists d sid"
      and run: "rating_update_trigger [(Some ?row, None)] ?d1
                  = Inr (fst (insert_rating d uid sid val c))"
      by (auto simp: insert_rating_def store_exists_def Let_def split: if_splits sum.splits)
    show ?thesis
    proof (rule statement_preserves[OF inv run])
      show "set (stores ?d1) \<subseteq> set (stores d)" by simp
      show "\<forall>r\<in>set (ratings ?d1). 1 \<le> rating r \<and> rating r \<le> 5 \<and> store_exists ?d1 (store_id r)"
        using inv val fk by (auto simp: db_invariant_def store_exists_def)
      show "store_ratings (ratings ?d1) x = store_ratings (ratings d) x"
        if "\<forall>ev\<in>set [(Some ?row, None)].
              coalesce (map_option store_id (fst ev)) (map_option store_id (snd ev)) \<noteq> Some x" for x
        using that by (simp add: store_ratings_def coalesce_def)
    qed
  qed
qed

lemma filter_map_untouched:
  assumes "\<And>r. r \<in> set xs \<Longrightarrow> hit r \<Longrightarrow> \<not> P r \<and> \<not> P (f r)"
  shows "filter P (map (\<lambda>r. if hit r then f r else r) xs) = filter P xs"
  using assms by (induction xs) auto

lemma update_rating_preserves:
  assumes inv: "db_invariant d" and run: "update_rating d val c uid sid = Inr (d', rows)"
  shows "db_invariant d'"
proof -
  let ?hit = "\<lambda>r. user_id r = uid \<and> store_id r = sid"
  let ?set = "\<lambda>r. r\<lparr>rating := val, comment := c\<rparr>"
  let ?olds = "filter ?hit (ratings d)"
  let ?evs = "map (\<lambda>r. (Some (?set r), Some r)) ?olds"
  let ?d0 = "d\<lparr>ratings := map (\<lambda>r. if ?hit r then ?set r else r) (ratings d)\<rparr>"
  from run have val: "?olds \<noteq> [] \<longrightarrow> 1 \<le> val \<and> val \<le> 5"
    and trig: "rating_update_trigger ?evs ?d0 = Inr d'"
    by (auto simp: update_rating_def Let_def split: if_splits sum.splits)
  show ?thesis
  proof (rule statement_preserves[OF inv trig])
    show "set (stores ?d0) \<subseteq> set (stores d)" by simp
    show "\<forall>r\<in>set (ratings ?d0). 1 \<le> rating r \<and> rating r \<le> 5 \<and> store_exists ?d0 (store_id r)"
    proof
      fix r assume "r \<in> set (ratings ?d0)"
      then obtain r0 where r0: "r0 \<in> set (ratings d)" and r: "r = (if ?hit r0 then ?set r0 else r0)"
        by auto
      from r0 inv have old: "1 \<le> rating r0 \<and> rating r0 \<le> 5 \<and> store_exists d (store_id r0)"
        by (simp add: db_invariant_def)
      show "1 \<le> rating r \<and> rating r \<le> 5 \<and> store_exists ?d0 (store_id r)"
      proof (cases "?hit r0")
        case True
        with r0 have "?olds \<noteq> []" by (auto simp: filter_empty_conv)
        with val r True old show ?thesis by (simp add: store_exists_def)
      next
        case False
        with r old show ?thesis by (simp add: store_exists_def)
      qed
    qed
    show "store_ratings (ratings ?d0) x = store_ratings (ratings d) x"
      if nt: "\<forall>ev\<in>set ?evs.
              coalesce (map_option store_id (fst ev)) (map_option store_id (snd ev)) \<noteq> Some x" for x
    proof -
      have h: "\<not> store_id r = x \<and> \<not> store_id (?set r) = x" if "r \<in> set (ratings d)" "?hit r" for r
      proof -
        from that have "(Some (?set r), Some r) \<in> set ?evs" by simp
        with nt have "coalesce (map_option store_id (Some (?set r))) (map_option store_id (Some r)) \<noteq> Some x"
          by fastforce
        then show ?thesis by (simp add: coalesce_def)
      qed
      have "filter (\<lambda>r. store_id r = x) (map (\<lambda>r. if ?hit r then ?set r else r) (ratings d)) =
            filter (\<lambda>r. store_id r = x) (ratings d)"
        by (rule filter_map_untouched) (rule h)
      then show ?thesis by (simp add: store_ratings_def)
    qed
  qed
qed

lemma delete_rating_preserves:
  assumes inv: "db_invariant d" and run: "delete_rating d uid sid = Inr d'"
  shows "db_invariant d'"
proof -
  let ?hit = "\<lambda>r. user_id r = uid \<and> store_id r = sid"
  let ?olds = "filter ?hit (ratings d)"
  let ?d0 = "d\<lparr>ratings := filter (\<lambda>r. \<not> ?hit r) (ratings d)\<rparr>"
  from run have trig: "rating_update_trigger (map (\<lambda>r. (None, Some r)) ?olds) ?d0 = Inr d'"
    by (simp add: delete_rating_def Let_def)
  show ?thesis
  proof (rule statement_preserves[OF inv trig])
    show "set (stores ?d0) \<subseteq> set (stores d)" by simp
    show "\<forall>r\<in>set (ratings ?d0). 1 \<le> rating r \<and> rating r \<le> 5 \<and> store_exists ?d0 (store_id r)"
      using inv by (simp add: db_invariant_def store_exists_def)
    show "store_ratings (ratings ?d0) x = store_ratings (ratings d) x"
      if "\<forall>ev\<in>set (map (\<lambda>r. (None, Some r)) ?olds).
              coalesce (map_option store_id (fst ev)) (map_option store_id (snd ev)) \<noteq> Some x" for x
    proof -
      from that have "\<not> (\<exists>r\<in>set ?olds. store_id r = x)"
        by (auto simp: coalesce_def)
      then show ?thesis
        unfolding store_ratings_def by (auto intro: filter_cong)
    qed
  qed
qed

text \<open>
  Deleting a store or a user: the rating rows that go with it are those the trigger runs
  for, and the rating rows that stay refer to stores that stay.
\<close>

lemma delete_store_preserves:
  assumes inv: "db_invariant d" and run: "delete_store d sid = Inr d'"
  shows "db_invariant d'"
proof -
  let ?gone = "filter (\<lambda>r. store_id r = sid) (ratings d)"
  let ?d0 = "d\<lparr>stores := filter (\<lambda>s. s_id s \<noteq> sid) (stores d),
               ratings := filter (\<lambda>r. store_id r \<noteq> sid) (ratings d)\<rparr>"
  from run have trig: "rating_update_trigger (map (\<lambda>r. (None, Some r)) ?gone) ?d0 = Inr d'"
    by (simp add: delete_store_def)
  show ?thesis
  proof (rule statement_preserves[OF inv trig])
    show "set (stores ?d0) \<subseteq> set (stores d)" by auto
    show "\<forall>r\<in>set (ratings ?d0). 1 \<le> rating r \<and> rating r \<le> 5 \<and> store_exists ?d0 (store_id r)"
    proof
      fix r assume r: "r \<in> set (ratings ?d0)"
      then have r0: "r \<in> set (ratings d)" and alive: "store_id r \<noteq> sid" by auto
      from r0 inv have old: "1 \<le> rating r \<and> rating r \<le> 5 \<and> store_exists d (store_id r)"
        by (simp add: db_invariant_def)
      then obtain s where s: "s \<in> set (stores d)" "s_id s = store_id r"
        by (auto simp: store_exists_def list_ex_iff)
      with alive have "store_exists ?d0 (store_id r)" by (auto simp: store_exists_def list_ex_iff)
      with old show "1 \<le> rating r \<and> rating r \<le> 5 \<and> store_exists ?d0 (store_id r)" by simp
    qed
    show "store_ratings (ratings ?d0) x = store_ratings (ratings d) x"
      if "\<forall>ev\<in>set (map (\<lambda>r. (None, Some r)) ?gone).
              coalesce (map_option store_id (fst ev)) (map_option store_id (snd ev)) \<noteq> Some x" for x
    proof -
      from that have "\<not> (\<exists>r\<in>set ?gone. store_id r = x)"
        by (auto simp: coalesce_def)
      then show ?thesis
        unfolding store_ratings_def by (auto intro: filter_cong)
    qed
  qed
qed

lemma delete_user_preserves:
  assumes inv: "db_invariant d" and run: "delete_user d uid = Inr d'"
  shows "db_invariant d'"
proof -
  let ?owned = "map s_id (filter (\<lambda>s. owner_id s = Some uid) (stores d))"
  let ?dead = "\<lambda>r. user_id r = uid \<or> store_id r \<in> set ?owned"
  let ?d0 = "d\<lparr>users := filter (\<lambda>u. u_id u \<noteq> uid) (users d),
               stores := filter (\<lambda>s. owner_id s \<noteq> Some uid) (stores d),
               ratings := filter (\<lambda>r. \<not> ?dead r) (ratings d)\<rparr>"
  from run have trig: "rating_update_trigger (map (\<lambda>r. (None, Some r)) (filter ?dead (ratings d))) ?d0 = Inr d'"
    by (simp add: delete_user_def Let_def)
  show ?thesis
  proof (rule statement_preserves[OF inv trig])
    show "set (stores ?d0) \<subseteq> set (stores d)" by auto
    show "\<forall>r\<in>set (ratings ?d0). 1 \<le> rating r \<and> rating r \<le> 5 \<and> store_exists ?d0 (store_id r)"
    proof
      fix r assume r: "r \<in> set (ratings ?d0)"
      then have r0: "r \<in> set (ratings d)" and alive: "store_id r \<notin> set ?owned" by auto
      from r0 inv have old: "1 \<le> rating r \<and> rating r \<le> 5 \<and> store_exists d (store_id r)"
        by (simp add: db_invariant_def)
      then obtain s where s: "s \<in> set (stores d)" "s_id s = store_id r"
        by (auto simp: store_exists_def list_ex_iff)
      have "owner_id s \<noteq> Some uid"
      proof
        assume "owner_id s = Some uid"
        with s(1) have "s \<in> set (filter (\<lambda>s. owner_id s = Some uid) (stores d))" by simp
        then have "s_id s \<in> set ?owned" by (simp only: set_map) (rule imageI)
        with alive s(2) show False by simp
      qed
      with s have "store_exists ?d0 (store_id r)" by (auto simp: store_exists_def list_ex_iff)
      with old show "1 \<le> rating r \<and> rating r \<le> 5 \<and> store_exists ?d0 (store_id r)" by simp
    qed
    show "store_ratings (ratings ?d0) x = store_ratings (ratings d) x"
      if "\<forall>ev\<in>set (map (\<lambda>r. (None, Some r)) (filter ?dead (ratings d))).
              coalesce (map_option store_id (fst ev)) (map_option store_id (snd ev)) \<noteq> Some x" for x
    proof -
      from that have "\<not> (\<exists>r\<in>set (filter ?dead (ratings d)). store_id r = x)"
        by (auto simp: coalesce_def)
      then show ?thesis
        unfolding store_ratings_def by (auto intro: filter_cong)
    qed
  qed
qed

text \<open>
  Creating a store: the new row has no rating rows, since every rating row refers to a
  store that was there before and the new id is none of theirs, and it carries the
  defaults 0.0 and 0.
\<close>

lemma insert_store_preserves:
  assumes inv: "db_invariant d"
  shows "db_invariant (fst (insert_store d now name email address owner))"
proof -
  let ?row = "\<lparr>s_id = stores_id_seq d, s_name = name, s_email = email, s_address = address,
               owner_id = owner, average_rating = Some 0, total_ratings = Some 0, s_created_at = now\<rparr>"
  let ?d0 = "d\<lparr>stores_id_seq := stores_id_seq d + 1\<rparr>"
  show ?thesis
  proof (cases "snd (insert_store d now name email address owner)")
    case (Inl e)
    then have "fst (insert_store d now name email address owner) = ?d0"
      by (auto simp: insert_store_def Let_def split: if_splits)
    with inv show ?thesis by simp
  next
    case (Inr row)
    then have fresh: "\<not> store_exists d (stores_id_seq d)"
      and res: "fst (insert_store d now name email address owner) = ?d0\<lparr>stores := stores d @ [?row]\<rparr>"
      by (auto simp: insert_store_def store_exists_def Let_def split: if_splits)
    from inv fresh have none: "store_ratings (ratings d) (stores_id_seq d) = []"
      by (auto simp: db_invariant_def store_ratings_def filter_empty_conv)
    then have "aggregates_agree (ratings d) ?row"
      by (simp add: aggregates_agree_def)
    with inv have "db_invariant (?d0\<lparr>stores := stores d @ [?row]\<rparr>)"
      by (auto simp: db_invariant_def store_exists_def)
    with res show ?thesis by simp
  qed
qed

lemma post_store_preserves:
  assumes inv: "db_invariant d"
  shows "db_invariant (fst (post_store d now name email address ownerId))"
proof -
  let ?owner = "case ownerId of None \<Rightarrow> None | Some n \<Rightarrow> if n = 0 then None else Some n"
  have "fst (post_store d now name email address ownerId) = d \<or>
        fst (post_store d now name email address ownerId) =
          fst (insert_store d now name email address ?owner)"
    by (auto simp: post_store_def Let_def split: option.split prod.split sum.split)
  with inv insert_store_preserves[OF inv] show ?thesis by auto
qed

text \<open>Updating a store writes its name, email and address, and no other column.\<close>

lemma update_store_preserves:
  assumes inv: "db_invariant d" and run: "update_store d storeId name email address = Inr (d', rows)"
  shows "db_invariant d'"
proof -
  let ?set = "\<lambda>s. s\<lparr>s_name := (if truthy name then or_default name [] else s_name s),
                      s_email := (if truthy email then or_default email [] else s_email s),
                      s_address := (if truthy address then or_default address [] else s_address s)\<rparr>"
  from run have d': "d' = d\<lparr>stores := map (\<lambda>s. if s_id s = storeId then ?set s else s) (stores d)\<rparr>"
    by (auto simp: update_store_def Let_def split: if_splits)
  have ids: "map s_id (stores d') = map s_id (stores d)"
    unfolding d' by (induction "stores d") auto
  have agree: "aggregates_agree (ratings d') s" if "s \<in> set (stores d')" for s
  proof -
    from that d' obtain s0 where s0: "s0 \<in> set (stores d)"
      and s: "s = (if s_id s0 = storeId then ?set s0 else s0)"
      by auto
    from s0 inv have "aggregates_agree (ratings d) s0" by (simp add: db_invariant_def)
    with s d' show ?thesis by (auto simp: aggregates_agree_def Let_def)
  qed
  from inv store_exists_ids[OF ids] d'
  have "\<forall>r\<in>set (ratings d'). 1 \<le> rating r \<and> rating r \<le> 5 \<and> store_exists d' (store_id r)"
    by (simp add: db_invariant_def)
  with agree show ?thesis by (simp add: db_invariant_def)
qed

lemma put_store_preserves:
  assumes inv: "db_invariant d"
  shows "db_invariant (fst (put_store d usr storeId name email address))"
proof (cases "update_store d storeId name email address")
  case (Inl e)
  with inv show ?thesis by (auto simp: put_store_def split: list.splits)
next
  case (Inr p)
  obtain d' rows where p: "p = (d', rows)" by (cases p)
  with Inr update_store_preserves[OF inv] have "db_invariant d'" by blast
  with Inr p inv show ?thesis by (auto simp: put_store_def split: list.splits)
qed

lemma handle_preserves:
  assumes inv: "db_invariant d"
  shows "db_invariant (handle d x)"
proof (cases x)
  case (PostRating userId storeId val c)
  show ?thesis
  proof (cases "\<not> store_exists d storeId \<or> rating_exists d userId storeId")
    case True
    with PostRating inv show ?thesis by (auto simp: post_rating_def)
  next
    case False
    then have "fst (post_rating d userId storeId val c) = fst (insert_rating d userId storeId val c)"
      by (auto simp: post_rating_def split: prod.splits sum.splits)
    with PostRating insert_rating_preserves[OF inv] show ?thesis by simp
  qed
next
  case (PutRating userId storeId val c)
  show ?thesis
  proof (cases "update_rating d val c userId storeId")
    case (Inl e)
    with PutRating inv show ?thesis by (simp add: put_rating_def)
  next
    case (Inr p)
    obtain d' rows where p: "p = (d', rows)" by (cases p)
    with Inr update_rating_preserves[OF inv] have "db_invariant d'" by blast
    with PutRating Inr p inv show ?thesis by (simp add: put_rating_def)
  qed
next
  case (DeleteRating userId storeId)
  show ?thesis
  proof (cases "delete_rating d userId storeId")
    case (Inl e)
    with DeleteRating inv show ?thesis by (simp add: delete_rating_handler_def)
  next
    case (Inr d')
    with delete_rating_preserves[OF inv] have "db_invariant d'" by blast
    with DeleteRating Inr inv show ?thesis by (simp add: delete_rating_handler_def)
  qed
next
  case (PostStore now name email address ownerId)
  with post_store_preserves[OF inv] show ?thesis by simp
next
  case (PutStore usr storeId name email address)
  with put_store_preserves[OF inv] show ?thesis by simp
next
  case (DeleteStore storeId)
  show ?thesis
  proof (cases "delete_store d storeId")
    case (Inl e)
    with DeleteStore inv show ?thesis by (simp add: delete_store_handler_def)
  next
    case (Inr d')
    with delete_store_preserves[OF inv] have "db_invariant d'" by blast
    with DeleteStore Inr inv show ?thesis by (simp add: delete_store_handler_def)
  qed
next
  case (DeleteUser usr userId)
  show ?thesis
  proof (cases "delete_user d userId")
    case (Inl e)
    with DeleteUser inv show ?thesis by (simp add: delete_user_handler_def)
  next
    case (Inr d')
    with delete_user_preserves[OF inv] have "db_invariant d'" by blast
    with DeleteUser Inr inv show ?thesis by (simp add: delete_user_handler_def)
  qed
qed

lemma run_preserves:
  "db_invariant d \<Longrightarrow> db_invariant (run d ops)"
  by (induction ops arbitrary: d) (simp_all add: handle_preserves)

subsection \<open>The invariant along every run of requests\<close>

text \<open>
  Claim C1. From a state of the database that satisfies the invariant, after each
  request of any sequence of rating submissions, updates and deletions (and of store
  creations, updates and deletions and user deletions between them, whose cascades
  delete ratings), every store row has \<^verbatim>\<open>total_ratings\<close> equal to the
  number of its rating rows and \<^verbatim>\<open>average_rating\<close> equal to their mean rounded to one digit
  after the point (here in tenths); a store left with no rating row has both fields 0,
  not \<^verbatim>\<open>NULL\<close>.
\<close>

theorem rating_aggregates_invariant:
  assumes "db_invariant d" and "n \<le> length ops"
    and "d' = run d (take n ops)" and "s \<in> set (stores d')"
  shows "total_ratings s = Some (int (length (store_ratings (ratings d') (s_id s)))) \<and>
         (store_ratings (ratings d') (s_id s) = [] \<longrightarrow>
            average_rating s = Some 0 \<and> total_ratings s = Some 0) \<and>
         (store_ratings (ratings d') (s_id s) \<noteq> [] \<longrightarrow>
            average_rating s =
              Some (round (10 * real_of_int (sum_list (map rating (store_ratings (ratings d') (s_id s))))
                           / real (length (store_ratings (ratings d') (s_id s)))))) \<and>
         db_invariant d'"
proof -
  from assms(1,3) have inv: "db_invariant d'" by (simp add: run_preserves)
  with assms(4) have "aggregates_agree (ratings d') s" by (simp add: db_invariant_def)
  with inv show ?thesis by (simp add: aggregates_agree_def Let_def)
qed

theorem rating_aggregates_invariant_witness:
  "db_invariant example_db \<and> (9::nat) \<le> length example_ops \<and>
   map (\<lambda>n. map (\<lambda>s. (s_id s, total_ratings s, average_rating s)) (stores (run example_db (take n example_ops))))
     [1, 2, 4, 7, 8, 9, 10] =
     [[(1, Some 3, Some 40), (2, Some 0, Some 0)],
      [(1, Some 2, Some 45), (2, Some 0, Some 0)],
      [(1, Some 0, Some 0), (2, Some 0, Some 0)],
      [(1, Some 0, Some 0), (2, Some 0, Some 0), (3, Some 1, Some 40)],
      [(1, Some 0, Some 0), (2, Some 0, Some 0), (3, Some 2, Some 45)],
      [(1, Some 0, Some 0), (2, Some 0, Some 0), (3, Some 1, Some 50)],
      [(2, Some 0, Some 0), (3, Some 1, Some 50)]] \<and>
   stores (run example_db (take 9 example_ops)) ! 2 \<in> set (stores (run example_db (take 9 example_ops))) \<and>
   total_ratings (stores (run example_db (take 9 example_ops)) ! 2) =
     Some (int (length (store_ratings (ratings (run example_db (take 9 example_ops))) 3))) \<and>
   db_invariant (run example_db (take 9 example_ops))"
proof -
  have inv: "db_invariant example_db"
    by (simp add: db_invariant_def example_db_def aggregates_agree_def store_ratings_def
        store_exists_def Let_def)
  have len: "(9::nat) \<le> length example_ops"
    by (simp add: example_ops_def)
  let ?d9 = "run example_db (take 9 example_ops)"
  have st: "map (\<lambda>n. map (\<lambda>s. (s_id s, total_ratings s, average_rating s))
                       (stores (run example_db (take n example_ops)))) [1, 2, 4, 7, 8, 9, 10] =
     [[(1, Some 3, Some 40), (2, Some 0, Some 0)],
      [(1, Some 2, Some 45), (2, Some 0, Some 0)],
      [(1, Some 0, Some 0), (2, Some 0, Some 0)],
      [(1, Some 0, Some 0), (2, Some 0, Some 0), (3, Some 1, Some 40)],
      [(1, Some 0, Some 0), (2, Some 0, Some 0), (3, Some 2, Some 45)],
      [(1, Some 0, Some 0), (2, Some 0, Some 0), (3, Some 1, Some 50)],
      [(2, Some 0, Some 0), (3, Some 1, Some 50)]]"
    by code_simp
  then have l9: "length (stores ?d9) = 3" and id9: "s_id (stores ?d9 ! 2) = 3"
    using length_map[of "\<lambda>s. (s_id s, total_ratings s, average_rating s)" "stores ?d9"]
      nth_map[of 2 "stores ?d9" "\<lambda>s. (s_id s, total_ratings s, average_rating s)"]
    by auto
  then have mem: "stores ?d9 ! 2 \<in> set (stores ?d9)" by simp
  from rating_aggregates_invariant[OF inv len refl mem] id9
  have "total_ratings (stores ?d9 ! 2) = Some (int (length (store_ratings (ratings ?d9) 3)))"
    "db_invariant ?d9"
    by simp_all
  with inv len st mem show ?thesis by blast
qed

subsection \<open>What one run of the trigger function touches\<close>

text \<open>
  Claim C10. One run of the trigger function recomputes \<^verbatim>\<open>average_rating\<close> and
  \<^verbatim>\<open>total_ratings\<close> of the store rows whose id is \<^verbatim>\<open>COALESCE(NEW.store_id, OLD.store_id)\<close>
  and of no other: every other store row, and the two other tables, are as before. So
  when an update has moved a rating row from one store to another, the run recomputes
  the store the row went to, and the row of the store it left is not touched.
\<close>

theorem update_store_rating_frame:
  assumes "update_store_rating NEW OLD d = Inr d'" and "i < length (stores d)"
  shows "length (stores d') = length (stores d) \<and> ratings d' = ratings d \<and> users d' = users d \<and>
         (Some (s_id (stores d ! i)) \<noteq> coalesce (map_option store_id NEW) (map_option store_id OLD) \<longrightarrow>
            stores d' ! i = stores d ! i) \<and>
         (Some (s_id (stores d ! i)) = coalesce (map_option store_id NEW) (map_option store_id OLD) \<longrightarrow>
            total_ratings (stores d' ! i) =
              Some (int (length (store_ratings (ratings d) (s_id (stores d ! i))))) \<and>
            stores d' ! i = (stores d ! i)\<lparr>average_rating := average_rating (stores d' ! i),
                                          total_ratings := total_ratings (stores d' ! i)\<rparr>) \<and>
         (\<forall>new old. NEW = Some new \<and> OLD = Some old \<and> store_id new \<noteq> store_id old \<and>
                     s_id (stores d ! i) = store_id old \<longrightarrow>
            stores d' ! i = stores d ! i)"
  using assms nth_mem[of i "stores d"]
  by (auto simp: update_store_rating_def coalesce_def Let_def store_ratings_def list_ex_iff
           split: option.splits if_splits sum.splits)

theorem update_store_rating_frame_witness:
  "(case update_store_rating
           (Some \<lparr>r_id = 2, user_id = 2, store_id = 2, rating = 4, comment = None\<rparr>)
           (Some \<lparr>r_id = 2, user_id = 2, store_id = 1, rating = 4, comment = None\<rparr>) moved_db of
      Inl e \<Rightarrow> False
    | Inr d' \<Rightarrow>
        (0::nat) < length (stores moved_db) \<and> s_id (stores moved_db ! 0) = 1 \<and>
        stores d' ! 0 = stores moved_db ! 0 \<and>
        total_ratings (stores d' ! 0) = Some 2 \<and> average_rating (stores d' ! 0) = Some 45 \<and>
        length (store_ratings (ratings d') 1) = 1 \<and>
        total_ratings (stores d' ! 1) = Some 1 \<and> average_rating (stores d' ! 1) = Some 40)"
proof -
  let ?new = "\<lparr>r_id = 2, user_id = 2, store_id = 2, rating = 4, comment = None\<rparr>"
  let ?old = "\<lparr>r_id = 2, user_id = 2, store_id = 1, rating = 4, comment = None\<rparr>"
  obtain d' where run: "update_store_rating (Some ?new) (Some ?old) moved_db = Inr d'"
    and st1: "total_ratings (stores d' ! 1) = Some 1 \<and> average_rating (stores d' ! 1) = Some 40"
    by (simp add: update_store_rating_def coalesce_def Let_def moved_db_def example_db_def
          to_decimal_2_1_def sql_avg_def)
  have len: "0 < length (stores moved_db)" and id0: "s_id (stores moved_db ! 0) = 1"
    and old: "total_ratings (stores moved_db ! 0) = Some 2 \<and>
              average_rating (stores moved_db ! 0) = Some 45"
    and rs: "length (store_ratings (ratings moved_db) 1) = 1"
    by (simp_all add: moved_db_def example_db_def store_ratings_def)
  from update_store_rating_frame[OF run len] id0
  have "stores d' ! 0 = stores moved_db ! 0" "ratings d' = ratings moved_db" by simp_all
  with run st1 len id0 old rs show ?thesis by simp
qed

subsection \<open>One rating for each user and store\<close>

lemma post_rating_ratings:
  "ratings (fst (post_rating d userId storeId val c)) = ratings d \<or>
   \<not> rating_exists d userId storeId \<and>
   (\<exists>row. user_id row = userId \<and> store_id row = storeId \<and>
      ratings (fst (post_rating d userId storeId val c)) = ratings d @ [row])"
proof (cases "post_rating d userId storeId val c")
  case (Pair d' res)
  show ?thesis
  proof (cases res)
    case (Inl e)
    with Pair show ?thesis
      by (auto simp: post_rating_def insert_rating_def Let_def split: if_splits sum.splits prod.splits)
  next
    case (Inr row)
    with Pair have ne: "\<not> rating_exists d userId storeId"
      and ins: "insert_rating d userId storeId val c = (d', Inr row)"
      by (auto simp: post_rating_def split: if_splits sum.splits prod.splits)
    let ?row = "\<lparr>r_id = ratings_id_seq d, user_id = userId, store_id = storeId, rating = val,
                 comment = c\<rparr>"
    from ins have "rating_update_trigger [(Some ?row, None)]
        (d\<lparr>ratings_id_seq := ratings_id_seq d + 1, ratings := ratings d @ [?row]\<rparr>) = Inr d'"
      by (auto simp: insert_rating_def Let_def split: if_splits sum.splits)
    from rating_update_trigger_ratings[OF this] have "ratings d' = ratings d @ [?row]" by simp
    with Pair ne show ?thesis by auto
  qed
qed

lemma put_rating_ratings:
  "map (\<lambda>r. (user_id r, store_id r)) (ratings (fst (put_rating d userId storeId val c))) =
   map (\<lambda>r. (user_id r, store_id r)) (ratings d)"
proof (cases "update_rating d val c userId storeId")
  case (Inl e)
  then show ?thesis by (simp add: put_rating_def)
next
  case (Inr p)
  obtain d' rows where p: "p = (d', rows)" by (cases p)
  let ?hit = "\<lambda>r. user_id r = userId \<and> store_id r = storeId"
  let ?set = "\<lambda>r. r\<lparr>rating := val, comment := c\<rparr>"
  from Inr p have "rating_update_trigger (map (\<lambda>r. (Some (?set r), Some r)) (filter ?hit (ratings d)))
       (d\<lparr>ratings := map (\<lambda>r. if ?hit r then ?set r else r) (ratings d)\<rparr>) = Inr d'"
    by (auto simp: update_rating_def Let_def split: if_splits sum.splits)
  from rating_update_trigger_ratings[OF this]
  have "ratings d' = map (\<lambda>r. if ?hit r then ?set r else r) (ratings d)" by simp
  then have "map (\<lambda>r. (user_id r, store_id r)) (ratings d') = map (\<lambda>r. (user_id r, store_id r)) (ratings d)"
    by (simp add: comp_def if_distrib cong: if_cong)
  with Inr p show ?thesis by (simp add: put_rating_def)
qed

lemma delete_rating_handler_ratings:
  "ratings (fst (delete_rating_handler d userId storeId)) = ratings d \<or>
   ratings (fst (delete_rating_handler d userId storeId)) =
     filter (\<lambda>r. \<not> (user_id r = userId \<and> store_id r = storeId)) (ratings d)"
proof (cases "delete_rating d userId storeId")
  case (Inl e)
  then show ?thesis by (simp add: delete_rating_handler_def)
next
  case (Inr d')
  then have "rating_update_trigger
       (map (\<lambda>r. (None, Some r)) (filter (\<lambda>r. user_id r = userId \<and> store_id r = storeId) (ratings d)))
       (d\<lparr>ratings := filter (\<lambda>r. \<not> (user_id r = userId \<and> store_id r = storeId)) (ratings d)\<rparr>) = Inr d'"
    by (simp add: delete_rating_def Let_def)
  from rating_update_trigger_ratings[OF this] Inr show ?thesis
    by (simp add: delete_rating_handler_def)
qed

lemma post_store_ratings:
  "ratings (fst (post_store d now name email address ownerId)) = ratings d"
  by (auto simp: post_store_def insert_store_def Let_def
           split: option.splits list.splits prod.splits sum.splits if_splits)

lemma put_store_ratings:
  "ratings (fst (put_store d usr storeId name email address)) = ratings d"
  by (auto simp: put_store_def update_store_def Let_def
           split: list.splits prod.splits sum.splits if_splits)

lemma delete_store_handler_ratings:
  "ratings (fst (delete_store_handler d storeId)) = ratings d \<or>
   (\<exists>P. ratings (fst (delete_store_handler d storeId)) = filter P (ratings d))"
proof (cases "delete_store d storeId")
  case (Inl e)
  then show ?thesis by (simp add: delete_store_handler_def)
next
  case (Inr d')
  from rating_update_trigger_ratings[OF Inr[unfolded delete_store_def]]
  have "ratings d' = filter (\<lambda>r. store_id r \<noteq> storeId) (ratings d)" by simp
  with Inr show ?thesis by (auto simp: delete_store_handler_def)
qed

lemma delete_user_handler_ratings:
  "ratings (fst (delete_user_handler d usr userId)) = ratings d \<or>
   (\<exists>P. ratings (fst (delete_user_handler d usr userId)) = filter P (ratings d))"
proof (cases "delete_user d userId")
  case (Inl e)
  then show ?thesis by (simp add: delete_user_handler_def)
next
  case (Inr d')
  from rating_update_trigger_ratings[OF Inr[unfolded delete_user_def Let_def]]
  have "\<exists>P. ratings d' = filter P (ratings d)" by auto
  with Inr show ?thesis by (auto simp: delete_user_handler_def)
qed

lemma handle_distinct:
  assumes "distinct (map (\<lambda>r. (user_id r, store_id r)) (ratings d))"
  shows "distinct (map (\<lambda>r. (user_id r, store_id r)) (ratings (handle d x)))"
proof (cases x)
  case (PostRating userId storeId val c)
  from post_rating_ratings[of d userId storeId val c]
  consider "ratings (fst (post_rating d userId storeId val c)) = ratings d"
    | row where "\<not> rating_exists d userId storeId" "user_id row = userId" "store_id row = storeId"
        "ratings (fst (post_rating d userId storeId val c)) = ratings d @ [row]"
    by blast
  then show ?thesis
  proof cases
    case 1
    with assms PostRating show ?thesis by simp
  next
    case 2
    from 2(1) have "(userId, storeId) \<notin> set (map (\<lambda>r. (user_id r, store_id r)) (ratings d))"
      by (auto simp: rating_exists_def list_ex_iff)
    with 2(2-4) assms PostRating show ?thesis by simp
  qed
next
  case (PutRating userId storeId val c)
  with put_rating_ratings[of d userId storeId val c] assms show ?thesis by simp
next
  case (DeleteRating userId storeId)
  with delete_rating_handler_ratings[of d userId storeId] assms show ?thesis
    by (auto simp: distinct_map_filter)
next
  case (PostStore now name email address ownerId)
  with post_store_ratings assms show ?thesis by simp
next
  case (PutStore usr storeId name email address)
  with put_store_ratings assms show ?thesis by simp
next
  case (DeleteStore storeId)
  with delete_store_handler_ratings[of d storeId] assms show ?thesis
    by (auto simp: distinct_map_filter)
next
  case (DeleteUser usr userId)
  with delete_user_handler_ratings[of d usr userId] assms show ?thesis
    by (auto simp: distinct_map_filter)
qed

lemma run_distinct:
  "distinct (map (\<lambda>r. (user_id r, store_id r)) (ratings d)) \<Longrightarrow>
   distinct (map (\<lambda>r. (user_id r, store_id r)) (ratings (run d ops)))"
  by (induction ops arbitrary: d) (simp_all add: handle_distinct)

text \<open>
  Claim C7. A user holds at most one rating for a store. Submitting a rating when the
  user already has one for that store changes nothing and fails: with the conflict
  answer (status 400, "already rated") when the store exists, which the foreign key of
  the rating row guarantees, and in any case with status 400 or 404. Updating a rating
  that does not exist changes nothing and fails with status 404. And the pairs
  \<^verbatim>\<open>(user_id, store_id)\<close> of the rating rows stay distinct along every run of requests.
\<close>

theorem one_rating_per_user_and_store:
  "(rating_exists d userId storeId \<longrightarrow>
      fst (post_rating d userId storeId val c) = d \<and>
      (\<exists>status msg. snd (post_rating d userId storeId val c) = Inl (HttpError status msg) \<and>
         (status = 400 \<or> status = 404)) \<and>
      (store_exists d storeId \<longrightarrow>
         snd (post_rating d userId storeId val c) =
           Inl (HttpError 400 ''You have already rated this store. Use PUT to update your rating.''))) \<and>
   (\<not> rating_exists d userId storeId \<longrightarrow>
      fst (put_rating d userId storeId val c) = d \<and>
      (\<exists>msg. snd (put_rating d userId storeId val c) = Inl (HttpError 404 msg))) \<and>
   (distinct (map (\<lambda>r. (user_id r, store_id r)) (ratings d)) \<longrightarrow>
      distinct (map (\<lambda>r. (user_id r, store_id r)) (ratings (run d ops))))"
  by (simp add: post_rating_def put_rating_def run_distinct)

theorem one_rating_per_user_and_store_witness:
  "rating_exists example_db 1 1 \<and> store_exists example_db 1 \<and>
   post_rating example_db 1 1 3 None =
     (example_db, Inl (HttpError 400 ''You have already rated this store. Use PUT to update your rating.'')) \<and>
   \<not> rating_exists example_db 3 1 \<and>
   put_rating example_db 3 1 3 None =
     (example_db, Inl (HttpError 404 ''You have not rated this store yet. Use POST to submit a new rating.'')) \<and>
   distinct (map (\<lambda>r. (user_id r, store_id r)) (ratings example_db)) \<and>
   distinct (map (\<lambda>r. (user_id r, store_id r)) (ratings (run example_db example_ops))) \<and>
   map (\<lambda>r. (user_id r, store_id r)) (ratings (run example_db (take 1 example_ops)))
     = [(1, 1), (2, 1), (3, 1)]"
proof -
  have h1: "rating_exists example_db 1 1" "store_exists example_db 1" "\<not> rating_exists example_db 3 1"
    by (simp_all add: rating_exists_def store_exists_def example_db_def)
  have h2: "distinct (map (\<lambda>r. (user_id r, store_id r)) (ratings example_db))"
    by (simp add: example_db_def)
  have put: "snd (put_rating example_db 3 1 3 None) =
      Inl (HttpError 404 ''You have not rated this store yet. Use POST to submit a new rating.'')"
    using h1 by (simp add: put_rating_def)
  have r1: "map (\<lambda>r. (user_id r, store_id r)) (ratings (run example_db (take 1 example_ops)))
     = [(1, 1), (2, 1), (3, 1)]"
    by code_simp
  from one_rating_per_user_and_store[of example_db 1 1 3 None example_ops] h1 h2
  have a: "fst (post_rating example_db 1 1 3 None) = example_db"
    "snd (post_rating example_db 1 1 3 None) =
       Inl (HttpError 400 ''You have already rated this store. Use PUT to update your rating.'')"
    "distinct (map (\<lambda>r. (user_id r, store_id r)) (ratings (run example_db example_ops)))"
    by simp_all
  from one_rating_per_user_and_store[of example_db 3 1 3 None example_ops] h1
  have b: "fst (put_rating example_db 3 1 3 None) = example_db" by simp
  from a b put h1 h2 r1 show ?thesis by (simp add: prod_eq_iff)
qed

section \<open>The list handlers\<close>

subsection \<open>Sort order, sort field and search field\<close>

lemma upper_lower_char: "upper_char (lower_char c) = upper_char c"
proof (cases "65 \<le> (of_char c :: nat) \<and> (of_char c :: nat) \<le> 90")
  case True
  then have "(of_char (char_of (of_char c + 32 :: nat)) :: nat) = of_char c + 32"
    by (simp add: of_char_of)
  with True show ?thesis by (simp add: upper_char_def lower_char_def)
next
  case False
  then show ?thesis by (auto simp: lower_char_def)
qed

lemma toUpperCase_toLowerCase: "toUpperCase (toLowerCase s) = toUpperCase s"
  by (simp add: toUpperCase_def toLowerCase_def upper_lower_char)

lemma sort_order_valid:
  assumes "dflt = ''ASC'' \<or> dflt = ''DESC''"
  shows "sort_order s dflt = ''ASC'' \<or> sort_order s dflt = ''DESC''"
proof (cases "toLowerCase s \<in> set validSortOrders")
  case True
  then have "toLowerCase s = ''asc'' \<or> toLowerCase s = ''desc''"
    by (simp add: validSortOrders_def)
  moreover have "toUpperCase ''asc'' = ''ASC''" "toUpperCase ''desc'' = ''DESC''"
    by code_simp+
  ultimately have "toUpperCase (toLowerCase s) = ''ASC'' \<or> toUpperCase (toLowerCase s) = ''DESC''"
    by auto
  with True show ?thesis by (simp add: sort_order_def toUpperCase_toLowerCase)
next
  case False
  with assms show ?thesis by (simp add: sort_order_def)
qed

lemma set_insert_by: "set (insert_by le x xs) = insert x (set xs)"
  by (induction xs) auto

lemma length_insert_by: "length (insert_by le x xs) = Suc (length xs)"
  by (induction xs) auto

lemma sort_by_props: "length (sort_by le xs) = length xs \<and> set (sort_by le xs) = set xs"
  by (induction xs) (simp_all add: sort_by_def set_insert_by length_insert_by)

lemma order_rows_valid:
  assumes "dir = ''ASC'' \<or> dir = ''DESC''"
  shows "\<exists>ordered. order_rows dir le rows = Inr ordered \<and> length ordered = length rows \<and>
           set ordered = set rows"
  using assms by (auto simp: order_rows_def sort_by_props)

lemma store_order_sortField: "\<exists>le. store_order (stores_sortField sortBy) = Some le"
  by (auto simp: stores_sortField_def stores_validSortFields_def store_order_def)

lemma store_text_column_searchField: "\<exists>col. store_text_column (stores_searchField searchBy) = Some col"
  by (auto simp: stores_searchField_def stores_validSearchFields_def store_text_column_def)

lemma user_order_sortField: "\<exists>le. user_order (users_sortField sortBy) = Some le"
  by (auto simp: users_sortField_def users_validSortFields_def user_order_def)

lemma user_text_column_searchField: "\<exists>col. user_text_column (users_searchField searchBy) = Some col"
  by (auto simp: users_searchField_def users_validSearchFields_def user_text_column_def)

lemma stores_where_list:
  "\<exists>pred. stores_where (sel_search (stores_list_select usr q)) (sel_owner (stores_list_select usr q)) = Inr pred \<and>
          stores_where (cnt_search (stores_list_count usr q)) (cnt_owner (stores_list_count usr q)) = Inr pred"
proof -
  obtain col where "store_text_column (stores_searchField (or_default (q_searchBy q) ''name'')) = Some col"
    using store_text_column_searchField by blast
  then show ?thesis
    by (simp add: stores_list_select_def stores_list_count_def stores_where_def Let_def)
qed

lemma users_where_list:
  "\<exists>pred. users_where (usel_search (users_list_select q)) (usel_role (users_list_select q)) = Inr pred \<and>
          users_where (ucnt_search (users_list_count q)) (ucnt_role (users_list_count q)) = Inr pred"
proof -
  obtain col where "user_text_column (users_searchField (or_default (q_searchBy q) ''name'')) = Some col"
    using user_text_column_searchField by blast
  then show ?thesis
    by (simp add: users_list_select_def users_list_count_def users_where_def Let_def)
qed

subsection \<open>The shape of a list answer\<close>

text \<open>The two list handlers, reduced to the \<^verbatim>\<open>LIMIT\<close> and \<^verbatim>\<open>OFFSET\<close> of their row query.\<close>

lemma get_stores_shape:
  "\<exists>pred ordered.
     stores_where (sel_search (stores_list_select usr q)) (sel_owner (stores_list_select usr q)) = Inr pred \<and>
     stores_where (cnt_search (stores_list_count usr q)) (cnt_owner (stores_list_count usr q)) = Inr pred \<and>
     length ordered =
       length (filter (\<lambda>row. pred (fst row)) (stores_joined d (sel_user_rating (stores_list_select usr q)))) \<and>
     set ordered =
       set (filter (\<lambda>row. pred (fst row)) (stores_joined d (sel_user_rating (stores_list_select usr q)))) \<and>
     get_stores d usr q =
       (case sql_limit_offset (or_default (q_limit q) (Num 10))
               (js_mul (js_sub (or_default (q_page q) (Num 1)) (Num 1)) (or_default (q_limit q) (Num 10)))
               ordered of
          Inl e \<Rightarrow> Inl (HttpError 500 ''Server error fetching stores'')
        | Inr rows \<Rightarrow>
            Inr (rows, pagination_block (or_default (q_page q) (Num 1)) (or_default (q_limit q) (Num 10))
                         (int (length (filter pred (stores d))))))"
proof -
  let ?sel = "stores_list_select usr q"
  obtain pred where
    w: "stores_where (sel_search ?sel) (sel_owner ?sel) = Inr pred"
       "stores_where (cnt_search (stores_list_count usr q)) (cnt_owner (stores_list_count usr q)) = Inr pred"
    using stores_where_list by blast
  have ob: "sel_order_by ?sel =
      (stores_sortField (or_default (q_sortBy q) ''name''), sort_order (or_default (q_sortOrder q) ''asc'') ''ASC'')"
    and lo: "sel_limit ?sel = or_default (q_limit q) (Num 10)"
       "sel_offset ?sel = js_mul (js_sub (or_default (q_page q) (Num 1)) (Num 1)) (or_default (q_limit q) (Num 10))"
    by (simp_all add: stores_list_select_def Let_def)
  obtain le where le: "store_order (fst (sel_order_by ?sel)) = Some le"
    using store_order_sortField ob by auto
  have "snd (sel_order_by ?sel) = ''ASC'' \<or> snd (sel_order_by ?sel) = ''DESC''"
    using sort_order_valid[of "''ASC''"] ob by simp
  then have dir: "snd (sel_order_by ?sel) = ''ASC'' \<or> snd (sel_order_by ?sel) = ''DESC''" .
  let ?rows = "filter (\<lambda>row. pred (fst row)) (stores_joined d (sel_user_rating ?sel))"
  define ordered where "ordered =
     (if snd (sel_order_by ?sel) = ''ASC'' then sort_by (\<lambda>a b. le (fst a) (fst b)) ?rows
      else sort_by (\<lambda>a b. le (fst b) (fst a)) ?rows)"
  have o: "order_rows (snd (sel_order_by ?sel)) (\<lambda>a b. le (fst a) (fst b)) ?rows = Inr ordered"
       "length ordered = length ?rows" "set ordered = set ?rows"
    using dir by (auto simp: ordered_def order_rows_def sort_by_props)
  have sel: "run_stores_select d ?sel =
      sql_limit_offset (or_default (q_limit q) (Num 10))
        (js_mul (js_sub (or_default (q_page q) (Num 1)) (Num 1)) (or_default (q_limit q) (Num 10))) ordered"
    by (simp add: run_stores_select_def w(1) le o(1) lo)
  have cnt: "run_stores_count d (stores_list_count usr q) = Inr (int (length (filter pred (stores d))))"
    by (simp add: run_stores_count_def w(2))
  have "get_stores d usr q =
       (case sql_limit_offset (or_default (q_limit q) (Num 10))
               (js_mul (js_sub (or_default (q_page q) (Num 1)) (Num 1)) (or_default (q_limit q) (Num 10)))
               ordered of
          Inl e \<Rightarrow> Inl (HttpError 500 ''Server error fetching stores'')
        | Inr rows \<Rightarrow>
            Inr (rows, pagination_block (or_default (q_page q) (Num 1)) (or_default (q_limit q) (Num 10))
                         (int (length (filter pred (stores d))))))"
    by (simp add: get_stores_def Let_def sel cnt split: sum.splits)
  with w o(2,3) show ?thesis by blast
qed

lemma get_users_shape:
  "\<exists>pred ordered.
     users_where (usel_search (users_list_select q)) (usel_role (users_list_select q)) = Inr pred \<and>
     users_where (ucnt_search (users_list_count q)) (ucnt_role (users_list_count q)) = Inr pred \<and>
     length ordered = length (filter (\<lambda>row. pred (fst row)) (users_joined d)) \<and>
     set ordered = set (filter (\<lambda>row. pred (fst row)) (users_joined d)) \<and>
     get_users d q =
       (case sql_limit_offset (or_default (q_limit q) (Num 10))
               (js_mul (js_sub (or_default (q_page q) (Num 1)) (Num 1)) (or_default (q_limit q) (Num 10)))
               ordered of
          Inl e \<Rightarrow> Inl (HttpError 500 ''Server error fetching users'')
        | Inr rows \<Rightarrow>
            Inr (rows, pagination_block (or_default (q_page q) (Num 1)) (or_default (q_limit q) (Num 10))
                         (int (length (filter pred (users d))))))"
proof -
  let ?sel = "users_list_select q"
  obtain pred where
    w: "users_where (usel_search ?sel) (usel_role ?sel) = Inr pred"
       "users_where (ucnt_search (users_list_count q)) (ucnt_role (users_list_count q)) = Inr pred"
    using users_where_list by blast
  have ob: "usel_order_by ?sel =
      (users_sortField (or_default (q_sortBy q) ''name''), sort_order (or_default (q_sortOrder q) ''asc'') ''ASC'')"
    and lo: "usel_limit ?sel = or_default (q_limit q) (Num 10)"
       "usel_offset ?sel = js_mul (js_sub (or_default (q_page q) (Num 1)) (Num 1)) (or_default (q_limit q) (Num 10))"
    by (simp_all add: users_list_select_def Let_def)
  obtain le where le: "user_order (fst (usel_order_by ?sel)) = Some le"
    using user_order_sortField ob by auto
  have "snd (usel_order_by ?sel) = ''ASC'' \<or> snd (usel_order_by ?sel) = ''DESC''"
    using sort_order_valid[of "''ASC''"] ob by simp
  then have dir: "snd (usel_order_by ?sel) = ''ASC'' \<or> snd (usel_order_by ?sel) = ''DESC''" .
  let ?rows = "filter (\<lambda>row. pred (fst row)) (users_joined d)"
  define ordered where "ordered =
     (if snd (usel_order_by ?sel) = ''ASC'' then sort_by (\<lambda>a b. le (fst a) (fst b)) ?rows
      else sort_by (\<lambda>a b. le (fst b) (fst a)) ?rows)"
  have o: "order_rows (snd (usel_order_by ?sel)) (\<lambda>a b. le (fst a) (fst b)) ?rows = Inr ordered"
       "length ordered = length ?rows" "set ordered = set ?rows"
    using dir by (auto simp: ordered_def order_rows_def sort_by_props)
  have sel: "run_users_select d ?sel =
      sql_limit_offset (or_default (q_limit q) (Num 10))
        (js_mul (js_sub (or_default (q_page q) (Num 1)) (Num 1)) (or_default (q_limit q) (Num 10))) ordered"
    by (simp add: run_users_select_def w(1) le o(1) lo)
  have cnt: "run_users_count d (users_list_count q) = Inr (int (length (filter pred (users d))))"
    by (simp add: run_users_count_def w(2))
  have "get_users d q =
       (case sql_limit_offset (or_default (q_limit q) (Num 10))
               (js_mul (js_sub (or_default (q_page q) (Num 1)) (Num 1)) (or_default (q_limit q) (Num 10)))
               ordered of
          Inl e \<Rightarrow> Inl (HttpError 500 ''Server error fetching users'')
        | Inr rows \<Rightarrow>
            Inr (rows, pagination_block (or_default (q_page q) (Num 1)) (or_default (q_limit q) (Num 10))
                         (int (length (filter pred (users d))))))"
    by (simp add: get_users_def Let_def sel cnt split: sum.splits)
  with w o(2,3) show ?thesis by blast
qed

text \<open>When \<^verbatim>\<open>LIMIT\<close> and \<^verbatim>\<open>OFFSET\<close> are accepted.\<close>

lemma sql_limit_offset_Inr:
  "sql_limit_offset lp op rows = Inr out \<longleftrightarrow>
   (\<exists>l k. lp = Num l \<and> op = Num k \<and> 0 \<le> l \<and> l < 2 ^ 63 \<and> 0 \<le> k \<and> k < 2 ^ 63 \<and>
          out = take (nat l) (drop (nat k) rows))"
  by (cases lp; cases op) (auto simp: sql_limit_offset_def pg_bigint_def split: if_splits)

lemma js_offset_Num:
  "js_mul (js_sub page (Num 1)) limit = Num k \<Longrightarrow> \<exists>pg l. page = Num pg \<and> limit = Num l \<and> k = (pg - 1) * l"
  by (cases page; cases limit) (auto split: if_splits)

text \<open>The ceiling of a quotient of integers.\<close>

lemma ceil_div_int:
  "- ((- t) div l) = \<lceil>real_of_int t / real_of_int l\<rceil>"
proof -
  have "\<lceil>real_of_int t / real_of_int l\<rceil> = - \<lfloor>real_of_int (- t) / real_of_int l\<rfloor>"
    by (simp add: ceiling_def)
  also have "\<dots> = - ((- t) div l)"
    by (simp only: floor_divide_of_int_eq)
  finally show ?thesis by simp
qed

lemma less_ceil_div:
  assumes "0 < l"
  shows "pg < - ((- t) div l) \<longleftrightarrow> pg * l < (t :: int)"
proof -
  have "pg < \<lceil>real_of_int t / real_of_int l\<rceil> \<longleftrightarrow> real_of_int pg < real_of_int t / real_of_int l"
    by (simp add: less_ceiling_iff)
  also have "\<dots> \<longleftrightarrow> real_of_int pg * real_of_int l < real_of_int t"
    using assms by (simp add: pos_less_divide_eq)
  also have "\<dots> \<longleftrightarrow> pg * l < t"
    by (metis of_int_less_iff of_int_mult)
  finally show ?thesis by (simp add: ceil_div_int)
qed

lemma pagination_block_props:
  "totalPages (pagination_block page limit n) = js_ceil_div n limit \<and>
   total (pagination_block page limit n) = n \<and>
   currentPage (pagination_block page limit n) = js_parseInt page \<and>
   hasNext (pagination_block page limit n) = js_lt page (js_ceil_div n limit) \<and>
   hasPrev (pagination_block page limit n) = js_lt (Num 1) page"
  by (simp add: pagination_block_def Let_def)

subsection \<open>A list answer that carries a pagination block\<close>

lemma get_stores_Inr:
  assumes "get_stores d usr q = Inr (rows, p)"
  obtains pred ordered pg l where
    "or_default (q_page q) (Num 1) = Num pg" "or_default (q_limit q) (Num 10) = Num l"
    "0 \<le> l" "l < 2 ^ 63" "0 \<le> (pg - 1) * l" "(pg - 1) * l < 2 ^ 63"
    "stores_where (sel_search (stores_list_select usr q)) (sel_owner (stores_list_select usr q)) = Inr pred"
    "stores_where (cnt_search (stores_list_count usr q)) (cnt_owner (stores_list_count usr q)) = Inr pred"
    "length ordered =
       length (filter (\<lambda>row. pred (fst row)) (stores_joined d (sel_user_rating (stores_list_select usr q))))"
    "set ordered =
       set (filter (\<lambda>row. pred (fst row)) (stores_joined d (sel_user_rating (stores_list_select usr q))))"
    "rows = take (nat l) (drop (nat ((pg - 1) * l)) ordered)"
    "p = pagination_block (Num pg) (Num l) (int (length (filter pred (stores d))))"
proof -
  let ?page = "or_default (q_page q) (Num 1)" and ?limit = "or_default (q_limit q) (Num 10)"
  from get_stores_shape[of usr q d] obtain pred ordered where
    w: "stores_where (sel_search (stores_list_select usr q)) (sel_owner (stores_list_select usr q)) = Inr pred"
       "stores_where (cnt_search (stores_list_count usr q)) (cnt_owner (stores_list_count usr q)) = Inr pred"
    and o: "length ordered =
       length (filter (\<lambda>row. pred (fst row)) (stores_joined d (sel_user_rating (stores_list_select usr q))))"
       "set ordered =
       set (filter (\<lambda>row. pred (fst row)) (stores_joined d (sel_user_rating (stores_list_select usr q))))"
    and g: "get_stores d usr q =
       (case sql_limit_offset ?limit (js_mul (js_sub ?page (Num 1)) ?limit) ordered of
          Inl e \<Rightarrow> Inl (HttpError 500 ''Server error fetching stores'')
        | Inr rows \<Rightarrow>
            Inr (rows, pagination_block ?page ?limit (int (length (filter pred (stores d))))))"
    by (elim exE conjE)
  from g assms have lo: "sql_limit_offset ?limit (js_mul (js_sub ?page (Num 1)) ?limit) ordered = Inr rows"
    and p: "p = pagination_block ?page ?limit (int (length (filter pred (stores d))))"
    by (auto split: sum.splits)
  from lo obtain l k where lk: "?limit = Num l" "js_mul (js_sub ?page (Num 1)) ?limit = Num k"
    "0 \<le> l" "l < 2 ^ 63" "0 \<le> k" "k < 2 ^ 63" "rows = take (nat l) (drop (nat k) ordered)"
    unfolding sql_limit_offset_Inr by (elim exE conjE)
  from js_offset_Num[OF lk(2)] lk(1) obtain pg where pg: "?page = Num pg" "k = (pg - 1) * l"
    by auto
  show thesis
    using that[OF pg(1) lk(1) lk(3,4) _ _ w o] lk(5,6,7) pg p lk(1) by simp
qed

lemma get_users_Inr:
  assumes "get_users d q = Inr (rows, p)"
  obtains pred ordered pg l where
    "or_default (q_page q) (Num 1) = Num pg" "or_default (q_limit q) (Num 10) = Num l"
    "0 \<le> l" "l < 2 ^ 63" "0 \<le> (pg - 1) * l" "(pg - 1) * l < 2 ^ 63"
    "users_where (usel_search (users_list_select q)) (usel_role (users_list_select q)) = Inr pred"
    "users_where (ucnt_search (users_list_count q)) (ucnt_role (users_list_count q)) = Inr pred"
    "length ordered =
       length (filter (\<lambda>row. pred (fst row)) (users_joined d))"
    "set ordered =
       set (filter (\<lambda>row. pred (fst row)) (users_joined d))"
    "rows = take (nat l) (drop (nat ((pg - 1) * l)) ordered)"
    "p = pagination_block (Num pg) (Num l) (int (length (filter pred (users d))))"
proof -
  let ?page = "or_default (q_page q) (Num 1)" and ?limit = "or_default (q_limit q) (Num 10)"
  from get_users_shape[of q d] obtain pred ordered where
    w: "users_where (usel_search (users_list_select q)) (usel_role (users_list_select q)) = Inr pred"
       "users_where (ucnt_search (users_list_count q)) (ucnt_role (users_list_count q)) = Inr pred"
    and o: "length ordered =
       length (filter (\<lambda>row. pred (fst row)) (users_joined d))"
       "set ordered =
       set (filter (\<lambda>row. pred (fst row)) (users_joined d))"
    and g: "get_users d q =
       (case sql_limit_offset ?limit (js_mul (js_sub ?page (Num 1)) ?limit) ordered of
          Inl e \<Rightarrow> Inl (HttpError 500 ''Server error fetching users'')
        | Inr rows \<Rightarrow>
            Inr (rows, pagination_block ?page ?limit (int (length (filter pred (users d))))))"
    by (elim exE conjE)
  from g assms have lo: "sql_limit_offset ?limit (js_mul (js_sub ?page (Num 1)) ?limit) ordered = Inr rows"
    and p: "p = pagination_block ?page ?limit (int (length (filter pred (users d))))"
    by (auto split: sum.splits)
  from lo obtain l k where lk: "?limit = Num l" "js_mul (js_sub ?page (Num 1)) ?limit = Num k"
    "0 \<le> l" "l < 2 ^ 63" "0 \<le> k" "k < 2 ^ 63" "rows = take (nat l) (drop (nat k) ordered)"
    unfolding sql_limit_offset_Inr by (elim exE conjE)
  from js_offset_Num[OF lk(2)] lk(1) obtain pg where pg: "?page = Num pg" "k = (pg - 1) * l"
    by auto
  show thesis
    using that[OF pg(1) lk(1) lk(3,4) _ _ w o] lk(5,6,7) pg p lk(1) by simp
qed

lemma pagination_block_Num:
  assumes "p = pagination_block (Num pg) (Num l) n"
  shows "total p = n \<and> currentPage p = Num pg \<and>
         totalPages p = js_ceil_div (total p) (Num l) \<and>
         hasNext p = js_lt (Num pg) (totalPages p) \<and> hasPrev p = js_lt (Num 1) (Num pg) \<and>
         (hasPrev p \<longleftrightarrow> 1 < pg) \<and>
         (0 < l \<longrightarrow> totalPages p = Num \<lceil>real_of_int (total p) / real_of_int l\<rceil> \<and>
                     (hasNext p \<longleftrightarrow> pg * l < total p))"
  using assms by (simp add: pagination_block_def Let_def ceil_div_int[symmetric] less_ceil_div)

subsection \<open>The pagination block\<close>

text \<open>
  Claim C4. Whenever the stores list or the users list answers with a pagination block,
  \<^verbatim>\<open>page\<close> and \<^verbatim>\<open>limit\<close> are integers \<open>pg\<close> and \<open>l\<close>, and: the count query and the row query
  have the same \<^verbatim>\<open>WHERE\<close> clause (search and scoping), the total is the number of rows of
  the table that satisfy it, with no limit or offset, and the rows returned are the page
  cut out of the ordered matching rows; \<^verbatim>\<open>totalPages\<close> is \<^verbatim>\<open>Math.ceil(total / limit)\<close>, which
  for a positive limit is the ceiling of the quotient; \<^verbatim>\<open>hasNext\<close> is \<^verbatim>\<open>page < totalPages\<close>,
  which for a positive limit says that rows remain after this page; and \<^verbatim>\<open>hasPrev\<close> is
  \<^verbatim>\<open>page > 1\<close>.
\<close>

theorem list_pagination_block:
  "(\<forall>rows p. get_stores d usr q = Inr (rows, p) \<longrightarrow>
      (\<exists>pg l pred ordered.
         or_default (q_page q) (Num 1) = Num pg \<and> or_default (q_limit q) (Num 10) = Num l \<and>
         stores_where (sel_search (stores_list_select usr q)) (sel_owner (stores_list_select usr q)) = Inr pred \<and>
         stores_where (cnt_search (stores_list_count usr q)) (cnt_owner (stores_list_count usr q)) = Inr pred \<and>
         total p = int (length (filter pred (stores d))) \<and>
         set ordered =
           set (filter (\<lambda>row. pred (fst row)) (stores_joined d (sel_user_rating (stores_list_select usr q)))) \<and>
         rows = take (nat l) (drop (nat ((pg - 1) * l)) ordered) \<and>
         totalPages p = js_ceil_div (total p) (Num l) \<and>
         hasNext p = js_lt (Num pg) (totalPages p) \<and>
         hasPrev p = js_lt (Num 1) (Num pg) \<and>
         (hasPrev p \<longleftrightarrow> 1 < pg) \<and>
         (0 < l \<longrightarrow> totalPages p = Num \<lceil>real_of_int (total p) / real_of_int l\<rceil> \<and>
                     (hasNext p \<longleftrightarrow> pg * l < total p)))) \<and>
   (\<forall>rows p. get_users d q = Inr (rows, p) \<longrightarrow>
      (\<exists>pg l pred ordered.
         or_default (q_page q) (Num 1) = Num pg \<and> or_default (q_limit q) (Num 10) = Num l \<and>
         users_where (usel_search (users_list_select q)) (usel_role (users_list_select q)) = Inr pred \<and>
         users_where (ucnt_search (users_list_count q)) (ucnt_role (users_list_count q)) = Inr pred \<and>
         total p = int (length (filter pred (users d))) \<and>
         set ordered = set (filter (\<lambda>row. pred (fst row)) (users_joined d)) \<and>
         rows = take (nat l) (drop (nat ((pg - 1) * l)) ordered) \<and>
         totalPages p = js_ceil_div (total p) (Num l) \<and>
         hasNext p = js_lt (Num pg) (totalPages p) \<and>
         hasPrev p = js_lt (Num 1) (Num pg) \<and>
         (hasPrev p \<longleftrightarrow> 1 < pg) \<and>
         (0 < l \<longrightarrow> totalPages p = Num \<lceil>real_of_int (total p) / real_of_int l\<rceil> \<and>
                     (hasNext p \<longleftrightarrow> pg * l < total p))))"
proof (intro conjI allI impI)
  fix rows p assume "get_stores d usr q = Inr (rows, p)"
  then obtain pred ordered pg l where f:
    "or_default (q_page q) (Num 1) = Num pg" "or_default (q_limit q) (Num 10) = Num l"
    "stores_where (sel_search (stores_list_select usr q)) (sel_owner (stores_list_select usr q)) = Inr pred"
    "stores_where (cnt_search (stores_list_count usr q)) (cnt_owner (stores_list_count usr q)) = Inr pred"
    "set ordered =
       set (filter (\<lambda>row. pred (fst row)) (stores_joined d (sel_user_rating (stores_list_select usr q))))"
    "rows = take (nat l) (drop (nat ((pg - 1) * l)) ordered)"
    "p = pagination_block (Num pg) (Num l) (int (length (filter pred (stores d))))"
    by (rule get_stores_Inr)
  from pagination_block_Num[OF f(7)] f(1-6)
  show "\<exists>pg l pred ordered.
         or_default (q_page q) (Num 1) = Num pg \<and> or_default (q_limit q) (Num 10) = Num l \<and>
         stores_where (sel_search (stores_list_select usr q)) (sel_owner (stores_list_select usr q)) = Inr pred \<and>
         stores_where (cnt_search (stores_list_count usr q)) (cnt_owner (stores_list_count usr q)) = Inr pred \<and>
         total p = int (length (filter pred (stores d))) \<and>
         set ordered =
           set (filter (\<lambda>row. pred (fst row)) (stores_joined d (sel_user_rating (stores_list_select usr q)))) \<and>
         rows = take (nat l) (drop (nat ((pg - 1) * l)) ordered) \<and>
         totalPages p = js_ceil_div (total p) (Num l) \<and>
         hasNext p = js_lt (Num pg) (totalPages p) \<and>
         hasPrev p = js_lt (Num 1) (Num pg) \<and>
         (hasPrev p \<longleftrightarrow> 1 < pg) \<and>
         (0 < l \<longrightarrow> totalPages p = Num \<lceil>real_of_int (total p) / real_of_int l\<rceil> \<and>
                     (hasNext p \<longleftrightarrow> pg * l < total p))"
    by - (rule exI[of _ pg], rule exI[of _ l], rule exI[of _ pred], rule exI[of _ ordered],
        elim conjE, intro conjI, (assumption | simp)+)
next
  fix rows p assume "get_users d q = Inr (rows, p)"
  then obtain pred ordered pg l where f:
    "or_default (q_page q) (Num 1) = Num pg" "or_default (q_limit q) (Num 10) = Num l"
    "users_where (usel_search (users_list_select q)) (usel_role (users_list_select q)) = Inr pred"
    "users_where (ucnt_search (users_list_count q)) (ucnt_role (users_list_count q)) = Inr pred"
    "set ordered = set (filter (\<lambda>row. pred (fst row)) (users_joined d))"
    "rows = take (nat l) (drop (nat ((pg - 1) * l)) ordered)"
    "p = pagination_block (Num pg) (Num l) (int (length (filter pred (users d))))"
    by (rule get_users_Inr)
  from pagination_block_Num[OF f(7)] f(1-6)
  show "\<exists>pg l pred ordered.
         or_default (q_page q) (Num 1) = Num pg \<and> or_default (q_limit q) (Num 10) = Num l \<and>
         users_where (usel_search (users_list_select q)) (usel_role (users_list_select q)) = Inr pred \<and>
         users_where (ucnt_search (users_list_count q)) (ucnt_role (users_list_count q)) = Inr pred \<and>
         total p = int (length (filter pred (users d))) \<and>
         set ordered = set (filter (\<lambda>row. pred (fst row)) (users_joined d)) \<and>
         rows = take (nat l) (drop (nat ((pg - 1) * l)) ordered) \<and>
         totalPages p = js_ceil_div (total p) (Num l) \<and>
         hasNext p = js_lt (Num pg) (totalPages p) \<and>
         hasPrev p = js_lt (Num 1) (Num pg) \<and>
         (hasPrev p \<longleftrightarrow> 1 < pg) \<and>
         (0 < l \<longrightarrow> totalPages p = Num \<lceil>real_of_int (total p) / real_of_int l\<rceil> \<and>
                     (hasNext p \<longleftrightarrow> pg * l < total p))"
    by - (rule exI[of _ pg], rule exI[of _ l], rule exI[of _ pred], rule exI[of _ ordered],
        elim conjE, intro conjI, (assumption | simp)+)
qed


theorem list_pagination_block_witness:
  "get_users example_db page2_query =
     Inr ([(users example_db ! 2, None)],
          \<lparr>currentPage = Num 2, totalPages = Num 2, total = 3, hasNext = False, hasPrev = True\<rparr>) \<and>
   totalPages \<lparr>currentPage = Num 2, totalPages = Num 2, total = 3, hasNext = False, hasPrev = True\<rparr> =
     Num \<lceil>real_of_int 3 / real_of_int 2\<rceil> \<and>
   hasNext \<lparr>currentPage = Num 2, totalPages = Num 2, total = 3, hasNext = False, hasPrev = True\<rparr> =
     ((2::int) * 2 < 3)"
proof -
  let ?p = "\<lparr>currentPage = Num 2, totalPages = Num 2, total = 3, hasNext = False, hasPrev = True\<rparr>"
  have ev: "get_users example_db page2_query = Inr ([(users example_db ! 2, None)], ?p)"
    by code_simp
  have pl: "or_default (q_page page2_query) (Num 1) = Num 2"
      "or_default (q_limit page2_query) (Num 10) = Num 2"
    by (simp_all add: page2_query_def no_query_def or_default_def)
  from list_pagination_block[of example_db admin page2_query] ev
  obtain pg l where f: "or_default (q_page page2_query) (Num 1) = Num pg"
      "or_default (q_limit page2_query) (Num 10) = Num l"
      "hasPrev ?p \<longleftrightarrow> 1 < pg"
      "0 < l \<longrightarrow> totalPages ?p = Num \<lceil>real_of_int (total ?p) / real_of_int l\<rceil> \<and>
                 (hasNext ?p \<longleftrightarrow> pg * l < total ?p)"
    by blast
  from f(1,2) pl have "pg = 2" "l = 2" by simp_all
  with f(3,4) ev show ?thesis by simp
qed

subsection \<open>A list with no matching row\<close>

lemma left_join_fst:
  assumes "(x, y) \<in> set (left_join xs ys cond)"
  shows "x \<in> set xs"
proof -
  from assms obtain x' where x': "x' \<in> set xs"
    and mem: "(x, y) \<in> set (case filter (cond x') ys of
                               [] \<Rightarrow> [(x', None)]
                             | m # ms \<Rightarrow> map (\<lambda>y. (x', Some y)) (m # ms))"
    by (auto simp: left_join_def)
  from mem have "x = x'" by (cases "filter (cond x') ys") auto
  with x' show ?thesis by simp
qed

lemma stores_joined_fst: "row \<in> set (stores_joined d ur) \<Longrightarrow> fst row \<in> set (stores d)"
  by (cases ur) (auto simp: stores_joined_def Let_def dest!: left_join_fst)

lemma users_joined_fst: "row \<in> set (users_joined d) \<Longrightarrow> fst row \<in> set (users d)"
  by (auto simp: users_joined_def dest!: left_join_fst)

lemma pagination_block_empty:
  assumes "p = pagination_block (Num pg) (Num l) 0" "0 < l" "0 \<le> (pg - 1) * l"
  shows "totalPages p = Num 0 \<and> \<not> hasNext p \<and> (hasPrev p \<longleftrightarrow> 1 < pg) \<and> 1 \<le> pg"
proof -
  from assms(2,3) have "0 \<le> pg - 1" by (simp add: zero_le_mult_iff)
  with assms(1,2) show ?thesis by (simp add: pagination_block_def Let_def)
qed

text \<open>
  Claim C5, as the code has it. Whenever the stores list or the users list answers and
  its filter matches no row, no row is returned, and for a positive limit the block has
  \<^verbatim>\<open>totalPages = 0\<close>, \<^verbatim>\<open>hasNext = false\<close> and \<^verbatim>\<open>hasPrev = (page > 1)\<close>, with \<^verbatim>\<open>page\<close> at least 1:
  \<^verbatim>\<open>hasPrev\<close> is false for page 1 only.
\<close>

theorem empty_list_pagination:
  "(\<forall>rows p. get_stores d usr q = Inr (rows, p) \<and> total p = 0 \<longrightarrow>
      rows = [] \<and>
      (\<exists>pg l. or_default (q_page q) (Num 1) = Num pg \<and> or_default (q_limit q) (Num 10) = Num l \<and>
         (0 < l \<longrightarrow> totalPages p = Num 0 \<and> \<not> hasNext p \<and> (hasPrev p \<longleftrightarrow> 1 < pg) \<and> 1 \<le> pg))) \<and>
   (\<forall>rows p. get_users d q = Inr (rows, p) \<and> total p = 0 \<longrightarrow>
      rows = [] \<and>
      (\<exists>pg l. or_default (q_page q) (Num 1) = Num pg \<and> or_default (q_limit q) (Num 10) = Num l \<and>
         (0 < l \<longrightarrow> totalPages p = Num 0 \<and> \<not> hasNext p \<and> (hasPrev p \<longleftrightarrow> 1 < pg) \<and> 1 \<le> pg)))"
proof (rule conjI; intro allI impI; elim conjE)
  fix rows p assume g: "get_stores d usr q = Inr (rows, p)" and t: "total p = 0"
  from g obtain pred ordered pg l where f:
    "or_default (q_page q) (Num 1) = Num pg" "or_default (q_limit q) (Num 10) = Num l"
    "0 \<le> (pg - 1) * l"
    "set ordered =
       set (filter (\<lambda>row. pred (fst row)) (stores_joined d (sel_user_rating (stores_list_select usr q))))"
    "rows = take (nat l) (drop (nat ((pg - 1) * l)) ordered)"
    "p = pagination_block (Num pg) (Num l) (int (length (filter pred (stores d))))"
    by (rule get_stores_Inr)
  from f(6) t have none: "filter pred (stores d) = []" by (simp add: pagination_block_def Let_def)
  have "set ordered = {}"
  proof -
    have "\<not> pred (fst row)" if "row \<in> set (stores_joined d (sel_user_rating (stores_list_select usr q)))" for row
      using stores_joined_fst[OF that] none by (auto simp: filter_empty_conv)
    with f(4) show ?thesis by auto
  qed
  with f(5) have r: "rows = []" by simp
  from f(6) none have "p = pagination_block (Num pg) (Num l) 0" by simp
  from pagination_block_empty[OF this _ f(3)] f(1,2) r
  show "rows = [] \<and>
      (\<exists>pg l. or_default (q_page q) (Num 1) = Num pg \<and> or_default (q_limit q) (Num 10) = Num l \<and>
         (0 < l \<longrightarrow> totalPages p = Num 0 \<and> \<not> hasNext p \<and> (hasPrev p \<longleftrightarrow> 1 < pg) \<and> 1 \<le> pg))"
    by auto
next
  fix rows p assume g: "get_users d q = Inr (rows, p)" and t: "total p = 0"
  from g obtain pred ordered pg l where f:
    "or_default (q_page q) (Num 1) = Num pg" "or_default (q_limit q) (Num 10) = Num l"
    "0 \<le> (pg - 1) * l"
    "set ordered = set (filter (\<lambda>row. pred (fst row)) (users_joined d))"
    "rows = take (nat l) (drop (nat ((pg - 1) * l)) ordered)"
    "p = pagination_block (Num pg) (Num l) (int (length (filter pred (users d))))"
    by (rule get_users_Inr)
  from f(6) t have none: "filter pred (users d) = []" by (simp add: pagination_block_def Let_def)
  have "set ordered = {}"
  proof -
    have "\<not> pred (fst row)" if "row \<in> set (users_joined d)" for row
      using users_joined_fst[OF that] none by (auto simp: filter_empty_conv)
    with f(4) show ?thesis by auto
  qed
  with f(5) have r: "rows = []" by simp
  from f(6) none have "p = pagination_block (Num pg) (Num l) 0" by simp
  from pagination_block_empty[OF this _ f(3)] f(1,2) r
  show "rows = [] \<and>
      (\<exists>pg l. or_default (q_page q) (Num 1) = Num pg \<and> or_default (q_limit q) (Num 10) = Num l \<and>
         (0 < l \<longrightarrow> totalPages p = Num 0 \<and> \<not> hasNext p \<and> (hasPrev p \<longleftrightarrow> 1 < pg) \<and> 1 \<le> pg))"
    by auto
qed

theorem empty_list_pagination_witness:
  "get_stores example_db admin empty_page2_query =
     Inr ([], \<lparr>currentPage = Num 2, totalPages = Num 0, total = 0, hasNext = False, hasPrev = True\<rparr>) \<and>
   or_default (q_page empty_page2_query) (Num 1) = Num 2 \<and>
   or_default (q_limit empty_page2_query) (Num 10) = Num 10 \<and>
   hasPrev \<lparr>currentPage = Num 2, totalPages = Num 0, total = 0, hasNext = False, hasPrev = True\<rparr> =
     ((1::int) < 2)"
proof -
  let ?p = "\<lparr>currentPage = Num 2, totalPages = Num 0, total = 0, hasNext = False, hasPrev = True\<rparr>"
  have ev: "get_stores example_db admin empty_page2_query = Inr ([], ?p)"
    by code_simp
  have pl: "or_default (q_page empty_page2_query) (Num 1) = Num 2"
      "or_default (q_limit empty_page2_query) (Num 10) = Num 10"
    by (simp_all add: empty_page2_query_def no_query_def or_default_def)
  from empty_list_pagination[of example_db admin empty_page2_query] ev
  obtain pg l where f: "or_default (q_page empty_page2_query) (Num 1) = Num pg"
      "or_default (q_limit empty_page2_query) (Num 10) = Num l"
      "0 < l \<longrightarrow> totalPages ?p = Num 0 \<and> \<not> hasNext ?p \<and> (hasPrev ?p \<longleftrightarrow> 1 < pg) \<and> 1 \<le> pg"
    by force
  from f(1,2) pl have "pg = 2" "l = 10" by simp_all
  with f(3) ev pl show ?thesis by simp
qed

text \<open>
  The claim as it was stated, that \<^verbatim>\<open>hasPrev\<close> is false on an empty result whatever the
  page, fails for \<^verbatim>\<open>?page=2&search=zzz\<close> on the example database.
\<close>

theorem empty_list_pagination_counterexample:
  "get_stores example_db admin empty_page2_query =
     Inr ([], \<lparr>currentPage = Num 2, totalPages = Num 0, total = 0, hasNext = False, hasPrev = True\<rparr>)"
  by code_simp

subsection \<open>Page and limit\<close>

lemma get_stores_succeeds_iff:
  "(\<exists>r. get_stores d usr q = Inr r) \<longleftrightarrow>
   (\<exists>pg l. or_default (q_page q) (Num 1) = Num pg \<and> or_default (q_limit q) (Num 10) = Num l \<and>
           0 \<le> l \<and> l < 2 ^ 63 \<and> 0 \<le> (pg - 1) * l \<and> (pg - 1) * l < 2 ^ 63)"
proof
  assume "\<exists>r. get_stores d usr q = Inr r"
  then obtain rows p where "get_stores d usr q = Inr (rows, p)" by auto
  then show "\<exists>pg l. or_default (q_page q) (Num 1) = Num pg \<and> or_default (q_limit q) (Num 10) = Num l \<and>
           0 \<le> l \<and> l < 2 ^ 63 \<and> 0 \<le> (pg - 1) * l \<and> (pg - 1) * l < 2 ^ 63"
    by (rule get_stores_Inr) blast
next
  assume "\<exists>pg l. or_default (q_page q) (Num 1) = Num pg \<and> or_default (q_limit q) (Num 10) = Num l \<and>
           0 \<le> l \<and> l < 2 ^ 63 \<and> 0 \<le> (pg - 1) * l \<and> (pg - 1) * l < 2 ^ 63"
  then obtain pg l where f: "or_default (q_page q) (Num 1) = Num pg"
    "or_default (q_limit q) (Num 10) = Num l" "0 \<le> l" "l < 2 ^ 63" "0 \<le> (pg - 1) * l"
    "(pg - 1) * l < 2 ^ 63"
    by blast
  from get_stores_shape[of usr q d] obtain pred ordered where
    g: "get_stores d usr q =
       (case sql_limit_offset (or_default (q_limit q) (Num 10))
               (js_mul (js_sub (or_default (q_page q) (Num 1)) (Num 1)) (or_default (q_limit q) (Num 10)))
               ordered of
          Inl e \<Rightarrow> Inl (HttpError 500 ''Server error fetching stores'')
        | Inr rows \<Rightarrow>
            Inr (rows, pagination_block (or_default (q_page q) (Num 1)) (or_default (q_limit q) (Num 10))
                         (int (length (filter pred (stores d))))))"
    by (elim exE conjE)
  have "sql_limit_offset (Num l) (Num ((pg - 1) * l)) ordered =
          Inr (take (nat l) (drop (nat ((pg - 1) * l)) ordered))"
    unfolding sql_limit_offset_Inr using f(3-6) by blast
  with g f(1,2) show "\<exists>r. get_stores d usr q = Inr r" by simp
qed





subsection \<open>A sort field outside the allow-list\<close>

lemma stores_list_select_sortBy:
  assumes "sortBy \<notin> set stores_validSortFields"
  shows "stores_list_select usr (q\<lparr>q_sortBy := Some sortBy\<rparr>) =
         stores_list_select usr (q\<lparr>q_sortBy := Some ''name''\<rparr>)"
  using assms by (simp add: stores_list_select_def Let_def or_default_def stores_sortField_def
      stores_validSortFields_def)

lemma users_list_select_sortBy:
  assumes "sortBy \<notin> set users_validSortFields"
  shows "users_list_select (q\<lparr>q_sortBy := Some sortBy\<rparr>) =
         users_list_select (q\<lparr>q_sortBy := Some ''name''\<rparr>)"
  using assms by (simp add: users_list_select_def Let_def or_default_def users_sortField_def
      users_validSortFields_def)

lemma get_users_succeeds:
  assumes "q_page q = None" "q_limit q = None"
  shows "\<exists>r. get_users d q = Inr r"
proof -
  from get_users_shape[of q d] obtain pred ordered where
    g: "get_users d q =
       (case sql_limit_offset (or_default (q_limit q) (Num 10))
               (js_mul (js_sub (or_default (q_page q) (Num 1)) (Num 1)) (or_default (q_limit q) (Num 10)))
               ordered of
          Inl e \<Rightarrow> Inl (HttpError 500 ''Server error fetching users'')
        | Inr rows \<Rightarrow>
            Inr (rows, pagination_block (or_default (q_page q) (Num 1)) (or_default (q_limit q) (Num 10))
                         (int (length (filter pred (users d))))))"
    by (elim exE conjE)
  have "sql_limit_offset (Num 10) (Num 0) ordered = Inr (take 10 ordered)"
    by (simp add: sql_limit_offset_def pg_bigint_def)
  with g assms show ?thesis by (simp add: or_default_def)
qed

lemma get_stores_succeeds:
  assumes "q_page q = None" "q_limit q = None"
  shows "\<exists>r. get_stores d usr q = Inr r"
  unfolding get_stores_succeeds_iff using assms by (simp add: or_default_def)

text \<open>
  Claim C3. A requested \<^verbatim>\<open>sortBy\<close> that is not in the allow-list of a resource is replaced
  by the default sort field of that resource: \<^verbatim>\<open>name\<close> for the stores list and the users
  list, \<^verbatim>\<open>created_at\<close> for the rating lists. The stores list and the users list then answer
  exactly as they do for \<^verbatim>\<open>sortBy=name\<close>, and no error comes of it: with \<^verbatim>\<open>page\<close> and \<^verbatim>\<open>limit\<close>
  absent, the request answers whatever \<^verbatim>\<open>sortBy\<close> is.
\<close>

theorem sort_field_fallback:
  "(sortBy \<notin> set stores_validSortFields \<longrightarrow>
      stores_sortField sortBy = ''name'' \<and>
      fst (sel_order_by (stores_list_select usr (q\<lparr>q_sortBy := Some sortBy\<rparr>))) = ''name'' \<and>
      get_stores d usr (q\<lparr>q_sortBy := Some sortBy\<rparr>) = get_stores d usr (q\<lparr>q_sortBy := Some ''name''\<rparr>)) \<and>
   (sortBy \<notin> set users_validSortFields \<longrightarrow>
      users_sortField sortBy = ''name'' \<and>
      fst (usel_order_by (users_list_select (q\<lparr>q_sortBy := Some sortBy\<rparr>))) = ''name'' \<and>
      get_users d (q\<lparr>q_sortBy := Some sortBy\<rparr>) = get_users d (q\<lparr>q_sortBy := Some ''name''\<rparr>)) \<and>
   (sortBy \<notin> set user_ratings_validSortFields \<longrightarrow> user_ratings_sortField sortBy = ''created_at'') \<and>
   (sortBy \<notin> set store_ratings_validSortFields \<longrightarrow> store_ratings_sortField sortBy = ''created_at'') \<and>
   (q_page q = None \<and> q_limit q = None \<longrightarrow>
      (\<exists>r. get_stores d usr (q\<lparr>q_sortBy := Some sortBy\<rparr>) = Inr r) \<and>
      (\<exists>r. get_users d (q\<lparr>q_sortBy := Some sortBy\<rparr>) = Inr r))"
proof (intro conjI impI)
  assume a: "sortBy \<notin> set stores_validSortFields"
  then show "stores_sortField sortBy = ''name''" by (simp add: stores_sortField_def)
  then show "fst (sel_order_by (stores_list_select usr (q\<lparr>q_sortBy := Some sortBy\<rparr>))) = ''name''"
    by (simp add: stores_list_select_def Let_def or_default_def)
  have c: "stores_list_count usr (q\<lparr>q_sortBy := Some sortBy\<rparr>) =
           stores_list_count usr (q\<lparr>q_sortBy := Some ''name''\<rparr>)"
    by (simp add: stores_list_count_def)
  show "get_stores d usr (q\<lparr>q_sortBy := Some sortBy\<rparr>) = get_stores d usr (q\<lparr>q_sortBy := Some ''name''\<rparr>)"
    unfolding get_stores_def stores_list_select_sortBy[OF a] c by simp
next
  assume a: "sortBy \<notin> set users_validSortFields"
  then show "users_sortField sortBy = ''name''" by (simp add: users_sortField_def)
  then show "fst (usel_order_by (users_list_select (q\<lparr>q_sortBy := Some sortBy\<rparr>))) = ''name''"
    by (simp add: users_list_select_def Let_def or_default_def)
  have c: "users_list_count (q\<lparr>q_sortBy := Some sortBy\<rparr>) =
           users_list_count (q\<lparr>q_sortBy := Some ''name''\<rparr>)"
    by (simp add: users_list_count_def)
  show "get_users d (q\<lparr>q_sortBy := Some sortBy\<rparr>) = get_users d (q\<lparr>q_sortBy := Some ''name''\<rparr>)"
    unfolding get_users_def users_list_select_sortBy[OF a] c by simp
next
  assume "sortBy \<notin> set user_ratings_validSortFields"
  then show "user_ratings_sortField sortBy = ''created_at''" by (simp add: user_ratings_sortField_def)
next
  assume "sortBy \<notin> set store_ratings_validSortFields"
  then show "store_ratings_sortField sortBy = ''created_at''" by (simp add: store_ratings_sortField_def)
next
  assume a: "q_page q = None \<and> q_limit q = None"
  then show "\<exists>r. get_stores d usr (q\<lparr>q_sortBy := Some sortBy\<rparr>) = Inr r"
    by (intro get_stores_succeeds) simp_all
  from a show "\<exists>r. get_users d (q\<lparr>q_sortBy := Some sortBy\<rparr>) = Inr r"
    by (intro get_users_succeeds) simp_all
qed

theorem sort_field_fallback_witness:
  "''unknown_field'' \<notin> set stores_validSortFields \<and>
   ''unknown_field'' \<notin> set users_validSortFields \<and>
   ''unknown_field'' \<notin> set user_ratings_validSortFields \<and>
   ''unknown_field'' \<notin> set store_ratings_validSortFields \<and>
   q_page no_query = None \<and> q_limit no_query = None \<and>
   sel_order_by (stores_list_select admin unknown_sort_query) = (''name'', ''ASC'') \<and>
   get_stores example_db admin unknown_sort_query = get_stores example_db admin (no_query\<lparr>q_sortBy := Some ''name''\<rparr>) \<and>
   map_sum id (\<lambda>(rows, p). (map (\<lambda>(s, u, r). s_name s) rows, currentPage p))
     (get_stores example_db admin unknown_sort_query) =
     Inr ([''Gourmet Food Market - Fresh Organic Products'',
           ''Premium Electronics Store - Best Tech Solutions''], Num 1) \<and>
   user_ratings_sortField ''unknown_field'' = ''created_at''"
proof -
  have h: "''unknown_field'' \<notin> set stores_validSortFields"
    "''unknown_field'' \<notin> set users_validSortFields"
    "''unknown_field'' \<notin> set user_ratings_validSortFields"
    "''unknown_field'' \<notin> set store_ratings_validSortFields"
    "q_page no_query = None \<and> q_limit no_query = None"
    by (simp_all add: stores_validSortFields_def users_validSortFields_def
        user_ratings_validSortFields_def store_ratings_validSortFields_def no_query_def)
  have ev: "map_sum id (\<lambda>(rows, p). (map (\<lambda>(s, u, r). s_name s) rows, currentPage p))
     (get_stores example_db admin unknown_sort_query) =
     Inr ([''Gourmet Food Market - Fresh Organic Products'',
           ''Premium Electronics Store - Best Tech Solutions''], Num 1)"
    by code_simp
  have ob: "snd (sel_order_by (stores_list_select admin unknown_sort_query)) = ''ASC''"
    by code_simp
  from sort_field_fallback[of "''unknown_field''" admin no_query example_db] h
  have "fst (sel_order_by (stores_list_select admin unknown_sort_query)) = ''name''"
    "get_stores example_db admin unknown_sort_query =
       get_stores example_db admin (no_query\<lparr>q_sortBy := Some ''name''\<rparr>)"
    "user_ratings_sortField ''unknown_field'' = ''created_at''"
    by (simp_all add: unknown_sort_query_def)
  with h ev ob show ?thesis by (simp add: prod_eq_iff)
qed

section \<open>Dispatch in the stores router\<close>

text \<open>
  Claim C9. \<^verbatim>\<open>GET /:id\<close> and \<^verbatim>\<open>GET /:id/ratings\<close> are registered before \<^verbatim>\<open>GET /my-store\<close> and
  \<^verbatim>\<open>GET /my-store/ratings\<close>. So a request for \<^verbatim>\<open>/api/stores/my-store\<close> goes to the
  get-store-by-id handler with \<^verbatim>\<open>id = 'my-store'\<close>, one for \<^verbatim>\<open>/api/stores/my-store/ratings\<close> to
  the handler of \<^verbatim>\<open>/:id/ratings\<close> with \<^verbatim>\<open>id = 'my-store'\<close>, and no request of any method and
  path reaches either of the two my-store handlers.
\<close>

theorem my_store_routes_unreachable:
  "dispatch stores_router GET [''my-store''] = Some (GetStoreById, [(''id'', ''my-store'')]) \<and>
   dispatch stores_router GET [''my-store'', ''ratings''] =
     Some (GetStoreRatings, [(''id'', ''my-store'')]) \<and>
   (\<forall>m path params. dispatch stores_router m path \<noteq> Some (GetMyStore, params) \<and>
                     dispatch stores_router m path \<noteq> Some (GetMyStoreRatings, params))"
proof -
  have a: "dispatch stores_router GET [''my-store''] = Some (GetStoreById, [(''id'', ''my-store'')])"
    by (simp add: stores_router_def)
  have b: "dispatch stores_router GET [''my-store'', ''ratings''] =
     Some (GetStoreRatings, [(''id'', ''my-store'')])"
    by (simp add: stores_router_def toLowerCase_def)
  have c: "dispatch stores_router m path \<noteq> Some (GetMyStore, params) \<and>
           dispatch stores_router m path \<noteq> Some (GetMyStoreRatings, params)" for m path params
  proof (cases path)
    case Nil
    then show ?thesis by (cases m) (simp_all add: stores_router_def)
  next
    case (Cons s ss)
    note path = Cons
    show ?thesis
    proof (cases ss)
      case Nil
      with path show ?thesis
        by (cases m; cases "s = []") (auto simp: stores_router_def toLowerCase_def)
    next
      case (Cons t ts)
      with path show ?thesis
        by (cases m; cases "s = []"; cases ts)
           (auto simp: stores_router_def toLowerCase_def split: option.splits)
    qed
  qed
  from a b c show ?thesis by blast
qed

theorem my_store_routes_unreachable_witness:
  "dispatch stores_router GET [''my-store''] = Some (GetStoreById, [(''id'', ''my-store'')]) \<and>
   dispatch stores_router GET [''MY-STORE'', ''ratings''] \<noteq> Some (GetMyStoreRatings, [])"
  using my_store_routes_unreachable by blast

section \<open>Roles\<close>

subsection \<open>The role tests of the handlers\<close>

lemma schema_role_not_upper:
  "r \<in> set schema_roles \<Longrightarrow> r \<noteq> ''SYSTEM_ADMIN'' \<and> r \<noteq> ''NORMAL_USER'' \<and> r \<noteq> ''STORE_OWNER''"
  by (auto simp: schema_roles_def)

text \<open>
  Claim C8. The schema admits the roles \<^verbatim>\<open>system_admin\<close>, \<^verbatim>\<open>normal_user\<close> and
  \<^verbatim>\<open>store_owner\<close>; the handlers compare with \<^verbatim>\<open>SYSTEM_ADMIN\<close>, \<^verbatim>\<open>NORMAL_USER\<close> and
  \<^verbatim>\<open>STORE_OWNER\<close>, and no role of the schema is one of these. So for a principal whose
  role is a role of the schema: the stores list has neither the \<^verbatim>\<open>user_rating\<close> join nor
  the owner scoping, in the row query and in the count query; reading or updating a
  store is never refused with status 403; and reading the profile of another user is
  refused with status 403 whatever the role, the administrator's included.
\<close>

theorem role_branches_never_taken:
  assumes "p_role usr \<in> set schema_roles"
  shows "sel_user_rating (stores_list_select usr q) = None \<and>
         sel_owner (stores_list_select usr q) = None \<and>
         cnt_owner (stores_list_count usr q) = None \<and>
         (\<forall>msg. get_store_by_id d usr storeId \<noteq> Inl (HttpError 403 msg)) \<and>
         (\<forall>msg. snd (put_store d usr storeId name email address) \<noteq> Inl (HttpError 403 msg)) \<and>
         (p_id usr \<noteq> userId \<longrightarrow> get_user_by_id d usr userId = Inl (HttpError 403 ''Access denied'')) \<and>
         set schema_roles \<inter> {''SYSTEM_ADMIN'', ''NORMAL_USER'', ''STORE_OWNER''} = {}"
proof -
  from assms have r: "p_role usr \<noteq> ''SYSTEM_ADMIN''" "p_role usr \<noteq> ''NORMAL_USER''"
    "p_role usr \<noteq> ''STORE_OWNER''"
    using schema_role_not_upper by blast+
  have 1: "sel_user_rating (stores_list_select usr q) = None"
    "sel_owner (stores_list_select usr q) = None" "cnt_owner (stores_list_count usr q) = None"
    using r by (simp_all add: stores_list_select_def stores_list_count_def Let_def)
  have 2: "get_store_by_id d usr storeId \<noteq> Inl (HttpError 403 msg)" for msg
    using r by (auto simp: get_store_by_id_def split: list.splits)
  have 3: "snd (put_store d usr storeId name email address) \<noteq> Inl (HttpError 403 msg)" for msg
    using r by (auto simp: put_store_def split: list.splits sum.splits)
  have 4: "p_id usr \<noteq> userId \<longrightarrow> get_user_by_id d usr userId = Inl (HttpError 403 ''Access denied'')"
    using r by (simp add: get_user_by_id_def)
  have 5: "set schema_roles \<inter> {''SYSTEM_ADMIN'', ''NORMAL_USER'', ''STORE_OWNER''} = {}"
    by (simp add: schema_roles_def)
  from 1 2 3 4 5 show ?thesis by blast
qed

theorem role_branches_never_taken_witness:
  "p_role owner4 \<in> set schema_roles \<and> p_role admin \<in> set schema_roles \<and>
   sel_owner (stores_list_select owner4 no_query) = None \<and>
   map_sum id (\<lambda>(rows, p). map (\<lambda>(s, u, r). s_id s) rows) (get_stores owner_db owner4 no_query) =
     Inr [2, 1] \<and>
   get_store_by_id owner_db owner4 2 = Inr (stores owner_db ! 1, None, None) \<and>
   p_id admin \<noteq> 1 \<and>
   get_user_by_id owner_db admin 1 = Inl (HttpError 403 ''Access denied'')"
proof -
  have h: "p_role owner4 \<in> set schema_roles" "p_role admin \<in> set schema_roles" "p_id admin \<noteq> 1"
    by (simp_all add: owner4_def admin_def schema_roles_def)
  have ev: "map_sum id (\<lambda>(rows, p). map (\<lambda>(s, u, r). s_id s) rows) (get_stores owner_db owner4 no_query) =
     Inr [2, 1]"
    "get_store_by_id owner_db owner4 2 = Inr (stores owner_db ! 1, None, None)"
    by code_simp+
  from role_branches_never_taken[OF h(1), of no_query owner_db 2 None None None 4]
  have a: "sel_owner (stores_list_select owner4 no_query) = None" by blast
  from role_branches_never_taken[OF h(2), of no_query owner_db 2 None None None 1] h(3)
  have b: "get_user_by_id owner_db admin 1 = Inl (HttpError 403 ''Access denied'')" by blast
  from h ev a b show ?thesis by blast
qed

subsection \<open>Creating a store for an owner\<close>

text \<open>
  What the handler checks before it writes: a request that carries an \<^verbatim>\<open>ownerId\<close> fails
  with status 400, and the database is as before, when that user already owns a store,
  does not exist, or has a role other than \<^verbatim>\<open>STORE_OWNER\<close>.
\<close>

lemma post_store_validation:
  assumes "ownerId = Some uid" "uid \<noteq> 0"
    and "list_ex (\<lambda>s. owner_id s = Some uid) (stores d) \<or>
         \<not> list_ex (\<lambda>u. u_id u = uid) (users d) \<or>
         (\<exists>u us. filter (\<lambda>u. u_id u = uid) (users d) = u # us \<and> u_role u \<noteq> ''STORE_OWNER'')"
  shows "fst (post_store d now name email address ownerId) = d \<and>
         (\<exists>msg. snd (post_store d now name email address ownerId) = Inl (HttpError 400 msg))"
proof (cases "filter (\<lambda>u. u_id u = uid) (users d)")
  case Nil
  with assms(1,2) show ?thesis by (simp add: post_store_def Let_def)
next
  case (Cons u us)
  with assms have "u_role u \<noteq> ''STORE_OWNER'' \<or> list_ex (\<lambda>s. owner_id s = Some uid) (stores d)"
    by (auto simp: list_ex_iff filter_empty_conv)
  with Cons assms(1,2) show ?thesis by (auto simp: post_store_def Let_def)
qed

text \<open>
  Claim C6 says that of two requests to create a store for the same owner the first
  succeeds. On a database whose users all have roles of the schema no such request
  succeeds: the role read from the table is never \<^verbatim>\<open>STORE_OWNER\<close>, so every request that
  carries an \<^verbatim>\<open>ownerId\<close> fails with status 400 and writes nothing, also the first one for
  a store owner who has no store.
\<close>

theorem post_store_rejects_every_schema_owner:
  assumes "\<forall>u\<in>set (users d). u_role u \<in> set schema_roles"
    and "ownerId = Some uid" and "uid \<noteq> 0"
  shows "fst (post_store d now name email address ownerId) = d \<and>
         (\<exists>msg. snd (post_store d now name email address ownerId) = Inl (HttpError 400 msg))"
proof (cases "filter (\<lambda>u. u_id u = uid) (users d)")
  case Nil
  then have "\<not> list_ex (\<lambda>u. u_id u = uid) (users d)" by (simp add: list_ex_iff filter_empty_conv)
  with post_store_validation[OF assms(2,3), of d] show ?thesis by blast
next
  case (Cons u us)
  then have "u \<in> set (filter (\<lambda>u. u_id u = uid) (users d))" by simp
  then have "u \<in> set (users d)" by simp
  with assms(1) have "u_role u \<noteq> ''STORE_OWNER''" by (auto simp: schema_roles_def)
  with Cons have "\<exists>u us. filter (\<lambda>u. u_id u = uid) (users d) = u # us \<and> u_role u \<noteq> ''STORE_OWNER''"
    by blast
  with post_store_validation[OF assms(2,3), of d] show ?thesis by blast
qed

theorem post_store_rejects_every_schema_owner_witness:
  "list_all (\<lambda>u. u_role u \<in> set schema_roles) (users owner_db) \<and>
   \<not> list_ex (\<lambda>s. owner_id s = Some 5) (stores owner_db) \<and>
   map u_role (filter (\<lambda>u. u_id u = 5) (users owner_db)) = [''store_owner''] \<and>
   post_store owner_db 8 ''Fashion Forward Boutique - Trendy Clothing Store''
       ''info@fashionforwardboutique.com'' ''456 Oak Avenue, Shopping Mall Complex'' (Some 5) =
     (owner_db, Inl (HttpError 400 ''User must be a store owner''))"
proof -
  have h: "\<forall>u\<in>set (users owner_db). u_role u \<in> set schema_roles"
    by (simp add: owner_db_def example_db_def schema_roles_def)
  have e: "\<not> list_ex (\<lambda>s. owner_id s = Some 5) (stores owner_db)"
    "map u_role (filter (\<lambda>u. u_id u = 5) (users owner_db)) = [''store_owner'']"
    by (simp_all add: owner_db_def example_db_def)
  have ev: "snd (post_store owner_db 8 ''Fashion Forward Boutique - Trendy Clothing Store''
       ''info@fashionforwardboutique.com'' ''456 Oak Avenue, Shopping Mall Complex'' (Some 5)) =
     Inl (HttpError 400 ''User must be a store owner'')"
    by code_simp
  from post_store_rejects_every_schema_owner[OF h refl, of 5 8
      "''Fashion Forward Boutique - Trendy Clothing Store''" "''info@fashionforwardboutique.com''"
      "''456 Oak Avenue, Shopping Mall Complex''"]
  have "fst (post_store owner_db 8 ''Fashion Forward Boutique - Trendy Clothing Store''
       ''info@fashionforwardboutique.com'' ''456 Oak Avenue, Shopping Mall Complex'' (Some 5)) = owner_db"
    by simp
  with h e ev show ?thesis by (simp add: prod_eq_iff list_all_iff)
qed

text \<open>
  With the role spelled as the handler expects it, the two requests of the claim go as
  the claim says: the first creates the store, the second is refused because the owner
  has a store.
\<close>

lemma post_store_twice_upper_owner:
  "(case post_store upper_owner_db 8 ''Fashion Forward Boutique - Trendy Clothing Store''
           ''info@fashionforwardboutique.com'' ''456 Oak Avenue, Shopping Mall Complex'' (Some 5) of
      (d', Inl e) \<Rightarrow> False
    | (d', Inr row) \<Rightarrow>
        s_id row = 3 \<and> owner_id row = Some 5 \<and> map s_id (stores d') = [1, 2, 3] \<and>
        post_store d' 9 ''Fashion Forward Boutique - Second Shop Downtown''
            ''second@fashionforwardboutique.com'' ''789 Pine Road, Market Square'' (Some 5) =
          (d', Inl (HttpError 400 ''Store owner already has a store'')))"
  by code_simp

end
